theory Spec2Isabelle
  imports Main "HOL-Library.Char_ord" "HOL-Library.List_Lexorder" "HOL-Library.Sublist"
begin

section \<open>sqliteinit: database lifecycle and migrations\<close>

text \<open>
  A shallow embedding of the Go package \<^verbatim>\<open>sqliteinit\<close>: the migration runner
  (\<^verbatim>\<open>listMigrationFiles\<close>, \<^verbatim>\<open>applySchemaInit\<close>, \<^verbatim>\<open>applyMigration\<close>, \<^verbatim>\<open>migrate\<close>)
  and the lifecycle operations (\<^verbatim>\<open>Open\<close>, \<^verbatim>\<open>Create\<close>, \<^verbatim>\<open>Delete\<close>, \<^verbatim>\<open>Status\<close>).

  Conventions of the embedding:
  \<^item> a Go \<^verbatim>\<open>error\<close> is its message, a \<open>string\<close>; a function returning
    \<^verbatim>\<open>(T, error)\<close> returns \<open>string + T\<close> (\<open>Inl\<close> the error), a function returning
    only \<^verbatim>\<open>error\<close> returns \<open>string option\<close>;
  \<^item> Go strings are byte strings: \<open>string\<close>, compared byte-wise
    (the lexicographic order on \<open>char list\<close>);
  \<^item> Go \<^verbatim>\<open>int\<close> is the 64-bit integer of the supported platforms: \<open>int\<close>, with the
    range written out where a value is parsed;
  \<^item> the logger is a list of entries that grows at the end;
  \<^item> the SQL engine, the file system and the environment are explicit state.
\<close>

subsection \<open>Strings, numbers and formatting\<close>

text \<open>\<^verbatim>\<open>strings.HasPrefix\<close> and \<^verbatim>\<open>strings.Contains\<close>.\<close>

definition HasPrefix :: "string \<Rightarrow> string \<Rightarrow> bool" where
  "HasPrefix s p = prefix p s"

definition Contains :: "string \<Rightarrow> string \<Rightarrow> bool" where
  "Contains s substr = sublist substr s"

text \<open>The ASCII decimal digits, the class \<^verbatim>\<open>\d\<close> of Go's regular expressions.\<close>

definition is_digit :: "char \<Rightarrow> bool" where
  "is_digit c = (CHR ''0'' \<le> c \<and> c \<le> CHR ''9'')"

definition digit_val :: "char \<Rightarrow> nat" where
  "digit_val c = of_char c - 48"

text \<open>The value of a string of decimal digits, most significant digit first.\<close>

definition decimal :: "string \<Rightarrow> nat" where
  "decimal ds = foldl (\<lambda>acc c. 10 * acc + digit_val c) 0 ds"

text \<open>
  \<^verbatim>\<open>%q\<close> of \<^verbatim>\<open>fmt\<close>: the string in double quotes. Go also escapes quotes,
  backslashes and non-printable bytes inside; that escaping is left out here, so the
  rendering is exact for names made of printable ASCII without quote or backslash.
\<close>

definition quote :: "string \<Rightarrow> string" where
  "quote s = CHR 0x22 # s @ [CHR 0x22]"

text \<open>
  \<^verbatim>\<open>strconv.Atoi\<close> on a 64-bit platform: an optional sign, then at least one decimal
  digit and nothing else; the value must fit a signed 64-bit integer.
\<close>

definition Atoi :: "string \<Rightarrow> string + int" where
  "Atoi s =
     (let neg = (s \<noteq> [] \<and> hd s = CHR ''-'');
          body = (if s \<noteq> [] \<and> (hd s = CHR ''+'' \<or> hd s = CHR ''-'') then tl s else s)
      in if body = [] \<or> \<not> list_all is_digit body
         then Inl (''strconv.Atoi: parsing '' @ quote s @ '': invalid syntax'')
         else (let n = (if neg then - int (decimal body) else int (decimal body))
               in if n < - (2 ^ 63) \<or> 2 ^ 63 - 1 < n
                  then Inl (''strconv.Atoi: parsing '' @ quote s @ '': value out of range'')
                  else Inr n))"

text \<open>\<^verbatim>\<open>strconv.Itoa\<close> (and \<^verbatim>\<open>%d\<close>): decimal rendering.\<close>

fun nat_str :: "nat \<Rightarrow> string" where
  "nat_str n =
     (if n < 10 then [''0123456789'' ! n]
      else nat_str (n div 10) @ [''0123456789'' ! (n mod 10)])"

definition Itoa :: "int \<Rightarrow> string" where
  "Itoa i = (if i < 0 then CHR ''-'' # nat_str (nat (- i)) else nat_str (nat i))"

subsection \<open>The logger\<close>

datatype level = Debug | Info

type_synonym log_entry = "level \<times> string \<times> (string \<times> string) list"

subsection \<open>Migration scripts and their discovery\<close>

text \<open>\<^verbatim>\<open>type migrationScript struct { ID int; Comment string; Path string }\<close>\<close>

record migrationScript =
  ID :: int
  Comment :: string
  Path :: string

text \<open>
  \<^verbatim>\<open>reMigrationFile = regexp.MustCompile(`^(\d{14})_(.+)\.sql$`)\<close> and
  \<^verbatim>\<open>FindStringSubmatch\<close>: the name is fourteen digits, an underscore, a non-empty
  middle part and the suffix \<^verbatim>\<open>.sql\<close>. The pattern is anchored at both ends, so the
  two groups are determined: the first fourteen bytes, and what lies between the
  underscore and the final four bytes. \<^verbatim>\<open>.\<close> matches every byte but the newline.
  The result is the pair of groups, or \<open>None\<close> for \<^verbatim>\<open>nil\<close>.
\<close>

definition FindStringSubmatch :: "string \<Rightarrow> (string \<times> string) option" where
  "FindStringSubmatch name =
     (let ts = take 14 name;
          rest = drop 14 name;
          body = tl rest;
          middle = take (length body - 4) body;
          ext = drop (length body - 4) body
      in if length ts = 14 \<and> list_all is_digit ts \<and> rest \<noteq> [] \<and> hd rest = CHR ''_''
            \<and> middle \<noteq> [] \<and> CHR 0x0A \<notin> set middle \<and> ext = ''.sql''
         then Some (ts, middle) else None)"

text \<open>
  \<^verbatim>\<open>fs.FS\<close>, as far as the package reads it: the entries of the root directory in the
  order \<^verbatim>\<open>fs.ReadDir(fsys, ".")\<close> returns them (or its error), and
  \<^verbatim>\<open>fs.ReadFile(fsys, name)\<close>.
\<close>

record dirEntry =
  Name :: string
  IsDir :: bool

record FS =
  ReadDir :: "string + dirEntry list"
  ReadFile :: "string \<Rightarrow> string + string"

text \<open>
  The loop of \<^verbatim>\<open>listMigrationFiles\<close> over the directory entries, with its three
  variables: the scripts collected so far, the map \<^verbatim>\<open>seenIDs\<close> and the logger.
\<close>

fun scanEntries ::
  "dirEntry list \<Rightarrow> migrationScript list \<Rightarrow> (int \<rightharpoonup> string) \<Rightarrow> log_entry list
     \<Rightarrow> (string + migrationScript list) \<times> log_entry list" where
  "scanEntries [] scripts seenIDs lg = (Inr scripts, lg)"
| "scanEntries (e # es) scripts seenIDs lg =
     (if IsDir e then scanEntries es scripts seenIDs lg
      else (case FindStringSubmatch (Name e) of
              None \<Rightarrow>
                scanEntries es scripts seenIDs
                  (lg @ [(Debug, ''skipping non-migration file'', [(''name'', Name e)])])
            | Some (m1, m2) \<Rightarrow>
                (case Atoi m1 of
                   Inl err \<Rightarrow>
                     (Inl (''invalid migration id in '' @ quote (Name e) @ '': '' @ err), lg)
                 | Inr i \<Rightarrow>
                     (case seenIDs i of
                        Some existing \<Rightarrow>
                          (Inl (''duplicate migration ID '' @ Itoa i @ '': '' @ quote existing
                                  @ '' and '' @ quote (Name e)), lg)
                      | None \<Rightarrow>
                          scanEntries es
                            (scripts @ [\<lparr>ID = i, Comment = m2, Path = Name e\<rparr>])
                            (seenIDs(i \<mapsto> Name e)) lg))))"

text \<open>
  \<^verbatim>\<open>listMigrationFiles\<close>. \<^verbatim>\<open>sort.Slice\<close> by \<^verbatim>\<open>Path\<close> is modelled by
  \<open>sort_key\<close>; the two agree whenever the paths are distinct, which they are when
  the loop has succeeded (distinct ids come from distinct names).
\<close>

definition listMigrationFiles ::
  "FS \<Rightarrow> log_entry list \<Rightarrow> (string + migrationScript list) \<times> log_entry list" where
  "listMigrationFiles migrationsFS lg =
     (case ReadDir migrationsFS of
        Inl err \<Rightarrow> (Inl err, lg)
      | Inr entries \<Rightarrow>
          (case scanEntries entries [] Map.empty lg of
             (Inl err, lg') \<Rightarrow> (Inl err, lg')
           | (Inr scripts, lg') \<Rightarrow> (Inr (sort_key Path scripts), lg')))"

subsection \<open>The database and the SQL engine\<close>

text \<open>
  The two tables of \<^verbatim>\<open>schema.sql\<close>, a row per record. A table that has not been
  created is \<open>None\<close>. Everything else a database holds (the tables the user's migration
  scripts create) is the opaque component \<open>user_data\<close>.
\<close>

record config_row =
  cfg_key :: string
  cfg_value :: string
  cfg_created_at :: int
  cfg_updated_at :: int

record migration_row =
  sm_id :: int
  sm_comment :: string
  sm_path :: string
  sm_applied_at :: int
  sm_created_at :: int
  sm_updated_at :: int

record 'u database =
  config_table :: "config_row list option"
  schema_migrations_table :: "migration_row list option"
  user_data :: 'u

text \<open>
  A statement of the package, as a function of the database it runs on: the error or the
  number of rows affected, and the database after it. A batch of statements that fails
  keeps what its earlier statements did, so a state comes back with the error too.
\<close>

type_synonym 'u statement = "'u database \<Rightarrow> (string + nat) \<times> 'u database"

text \<open>
  The connection as SQLite sees it: the committed database, and the working copy of the
  transaction that is open (\<open>None\<close> in autocommit mode). The raw text of a user's script
  is a function of the connection, not of the working copy alone: the text may contain
  \<^verbatim>\<open>COMMIT\<close>, \<^verbatim>\<open>ROLLBACK\<close> or \<^verbatim>\<open>BEGIN\<close>, so it can end the transaction it was started
  in, install what it has done so far and go on outside any transaction.
\<close>

type_synonym 'u connection = "'u database \<times> 'u database option"

type_synonym 'u script = "'u connection \<Rightarrow> (string + nat) \<times> 'u connection"

text \<open>
  What the package does not own is a parameter: how the engine executes the raw text of
  a user's script, whether \<^verbatim>\<open>BeginTx\<close> and \<^verbatim>\<open>Commit\<close> fail (on a busy or
  broken database), and the user data of a database that has just been created.
\<close>

record 'u engine =
  exec_sql :: "string \<Rightarrow> 'u script"
  begin_error :: "'u database \<Rightarrow> string option"
  commit_error :: "'u database \<Rightarrow> string option"
  blank :: 'u

text \<open>
  An open \<^verbatim>\<open>*sql.DB\<close> with its single connection: the committed database \<open>db\<close>, the
  working copy \<open>tx\<close> of the transaction that is open on the connection (if any), and the
  logger.
\<close>

record 'u session =
  db :: "'u database"
  tx :: "'u database option"
  logged :: "log_entry list"

definition logTo :: "level \<Rightarrow> string \<Rightarrow> (string \<times> string) list \<Rightarrow> 'u session \<Rightarrow> 'u session" where
  "logTo l msg attrs c = c\<lparr>logged := logged c @ [(l, msg, attrs)]\<rparr>"

definition BeginTx :: "'u engine \<Rightarrow> 'u session \<Rightarrow> string + 'u session" where
  "BeginTx eng c =
     (case begin_error eng (db c) of
        Some err \<Rightarrow> Inl err
      | None \<Rightarrow> Inr (c\<lparr>tx := Some (db c)\<rparr>))"

text \<open>
  \<^verbatim>\<open>tx.ExecContext\<close> on a statement of the package: the statement runs on the working
  copy of the open transaction. When a script has ended that transaction, the connection
  is in autocommit mode and the statement writes the committed database.
\<close>

definition ExecContext :: "'u statement \<Rightarrow> 'u session \<Rightarrow> (string + nat) \<times> 'u session" where
  "ExecContext stmt c =
     (case tx c of
        None \<Rightarrow> (case stmt (db c) of (res, d') \<Rightarrow> (res, c\<lparr>db := d'\<rparr>))
      | Some d \<Rightarrow> (case stmt d of (res, d') \<Rightarrow> (res, c\<lparr>tx := Some d'\<rparr>)))"

text \<open>
  \<^verbatim>\<open>tx.ExecContext\<close> on the raw text of a user's script: the engine runs the text on
  the connection. A text without transaction control acts on the connection like a
  statement of the package (\<open>on_transaction\<close>), and for such a text the two readings of
  \<^verbatim>\<open>tx.ExecContext\<close> agree.
\<close>

definition ExecScript :: "'u script \<Rightarrow> 'u session \<Rightarrow> (string + nat) \<times> 'u session" where
  "ExecScript scr c =
     (case scr (db c, tx c) of (res, (d', t')) \<Rightarrow> (res, c\<lparr>db := d', tx := t'\<rparr>))"

definition on_transaction :: "'u statement \<Rightarrow> 'u script" where
  "on_transaction stmt =
     (\<lambda>(d, t). case t of
         None \<Rightarrow> (case stmt d of (res, d') \<Rightarrow> (res, (d', None)))
       | Some wc \<Rightarrow> (case stmt wc of (res, wc') \<Rightarrow> (res, (d, Some wc'))))"

text \<open>
  \<^verbatim>\<open>tx.Commit\<close> installs the working copy; a commit that fails installs nothing and
  ends the transaction; with no transaction open on the connection (a script has ended
  it) the engine refuses the commit. The deferred \<^verbatim>\<open>tx.Rollback\<close> drops the working
  copy if there is one, and does nothing otherwise.
\<close>

definition Commit :: "'u engine \<Rightarrow> 'u session \<Rightarrow> string option \<times> 'u session" where
  "Commit eng c =
     (case tx c of
        None \<Rightarrow> (Some ''cannot commit - no transaction is active'', c)
      | Some d \<Rightarrow>
          (case commit_error eng d of
             Some err \<Rightarrow> (Some err, c\<lparr>tx := None\<rparr>)
           | None \<Rightarrow> (None, c\<lparr>db := d, tx := None\<rparr>)))"

definition Rollback :: "'u session \<Rightarrow> 'u session" where
  "Rollback c = c\<lparr>tx := None\<rparr>"

subsection \<open>The statements of the package\<close>

text \<open>
  \<^verbatim>\<open>schema.sql\<close>: creates \<^verbatim>\<open>schema_migrations\<close>, then \<^verbatim>\<open>config\<close>, then seeds the three
  config rows. \<^verbatim>\<open>CREATE TABLE\<close> fails on a table that exists. The two pragmas at the
  top of the script do not touch the tables.
\<close>

definition seed_config :: "config_row list" where
  "seed_config =
     [\<lparr>cfg_key = ''schema.version'', cfg_value = ''0'', cfg_created_at = 0, cfg_updated_at = 0\<rparr>,
      \<lparr>cfg_key = ''app.version'', cfg_value = '''', cfg_created_at = 0, cfg_updated_at = 0\<rparr>,
      \<lparr>cfg_key = ''db.created_at'', cfg_value = '''', cfg_created_at = 0, cfg_updated_at = 0\<rparr>]"

definition schema_sql :: "'u statement" where
  "schema_sql d =
     (if schema_migrations_table d \<noteq> None
      then (Inl ''table schema_migrations already exists'', d)
      else if config_table d \<noteq> None
      then (Inl ''table config already exists'', d\<lparr>schema_migrations_table := Some []\<rparr>)
      else (Inr 3, d\<lparr>schema_migrations_table := Some [], config_table := Some seed_config\<rparr>))"

text \<open>
  \<^verbatim>\<open>INSERT INTO schema_migrations (id, comment, path, applied_at, created_at, updated_at)\<close>:
  \<^verbatim>\<open>id\<close> is the primary key and \<^verbatim>\<open>path\<close> is \<^verbatim>\<open>UNIQUE\<close>.
\<close>

definition insert_migration :: "int \<Rightarrow> string \<Rightarrow> string \<Rightarrow> int \<Rightarrow> 'u statement" where
  "insert_migration i cmt p ts d =
     (case schema_migrations_table d of
        None \<Rightarrow> (Inl ''no such table: schema_migrations'', d)
      | Some rows \<Rightarrow>
          if i \<in> sm_id ` set rows
          then (Inl ''UNIQUE constraint failed: schema_migrations.id'', d)
          else if p \<in> sm_path ` set rows
          then (Inl ''UNIQUE constraint failed: schema_migrations.path'', d)
          else (Inr 1, d\<lparr>schema_migrations_table :=
                  Some (rows @ [\<lparr>sm_id = i, sm_comment = cmt, sm_path = p, sm_applied_at = ts,
                                  sm_created_at = ts, sm_updated_at = ts\<rparr>])\<rparr>))"

text \<open>
  \<^verbatim>\<open>UPDATE config SET value = ?, updated_at = ? WHERE key = k\<close>: every row with the key
  is updated and counted. The state type does not force the key to be unique, so the
  count can be any number.
\<close>

definition update_config :: "string \<Rightarrow> string \<Rightarrow> int \<Rightarrow> 'u statement" where
  "update_config k v ts d =
     (case config_table d of
        None \<Rightarrow> (Inl ''no such table: config'', d)
      | Some rows \<Rightarrow>
          (Inr (length (filter (\<lambda>r. cfg_key r = k) rows)),
           d\<lparr>config_table :=
               Some (map (\<lambda>r. if cfg_key r = k then r\<lparr>cfg_value := v, cfg_updated_at := ts\<rparr> else r)
                       rows)\<rparr>))"

text \<open>
  \<^verbatim>\<open>QueryRowContext(`SELECT value FROM config WHERE key = 'schema.version'`).Scan\<close>:
  the engine's error for a missing table, \<^verbatim>\<open>sql.ErrNoRows\<close> when no row has the key,
  otherwise the value of the first such row.
\<close>

definition select_schema_version :: "'u database \<Rightarrow> string + string" where
  "select_schema_version d =
     (case config_table d of
        None \<Rightarrow> Inl ''no such table: config''
      | Some rows \<Rightarrow>
          (case filter (\<lambda>r. cfg_key r = ''schema.version'') rows of
             [] \<Rightarrow> Inl ''sql: no rows in result set''
           | r # _ \<Rightarrow> Inr (cfg_value r)))"

text \<open>\<^verbatim>\<open>SELECT id, comment, path, applied_at FROM schema_migrations ORDER BY path\<close>\<close>

definition select_applied :: "'u database \<Rightarrow> string + migration_row list" where
  "select_applied d =
     (case schema_migrations_table d of
        None \<Rightarrow> Inl ''no such table: schema_migrations''
      | Some rows \<Rightarrow> Inr (sort_key sm_path rows))"

subsection \<open>Reading the bookkeeping\<close>

definition isNoSuchTable :: "string option \<Rightarrow> bool" where
  "isNoSuchTable err =
     (case err of None \<Rightarrow> False | Some msg \<Rightarrow> Contains msg ''no such table'')"

definition fetchSchemaVersion :: "'u database \<Rightarrow> string + int option" where
  "fetchSchemaVersion d =
     (case select_schema_version d of
        Inl err \<Rightarrow>
          if isNoSuchTable (Some err) then Inr None
          else Inl (''fetch schema.version: '' @ err)
      | Inr v \<Rightarrow>
          (case Atoi v of
             Inl err \<Rightarrow> Inl (''invalid schema.version '' @ quote v @ '': '' @ err)
           | Inr n \<Rightarrow> Inr (Some n)))"

text \<open>
  \<^verbatim>\<open>type AppliedMigration struct { ID int; Comment string; Path string; AppliedAt time.Time }\<close>:
  the three fields of a script and the time of application (in Unix seconds).
\<close>

record AppliedMigration = migrationScript +
  AppliedAt :: int

definition fetchAppliedMigrations :: "'u database \<Rightarrow> string + AppliedMigration list" where
  "fetchAppliedMigrations d =
     (case select_applied d of
        Inl err \<Rightarrow> if isNoSuchTable (Some err) then Inr [] else Inl err
      | Inr rows \<Rightarrow>
          Inr (map (\<lambda>r. \<lparr>ID = sm_id r, Comment = sm_comment r, Path = sm_path r,
                          AppliedAt = sm_applied_at r\<rparr>) rows))"

subsection \<open>Configuration\<close>

text \<open>
  \<^verbatim>\<open>type Config struct\<close>. The field \<open>Path\<close> is written \<open>Path_cfg\<close> here (the name
  \<open>Path\<close> is the script's). \<^verbatim>\<open>Logger\<close> is the log of the state, and
  \<^verbatim>\<open>MigrationTimeout\<close> (real time) is not modelled. \<^verbatim>\<open>Migrations\<close> is \<open>None\<close> for
  \<^verbatim>\<open>nil\<close>.
\<close>

record Config =
  Path_cfg :: string
  Migrations :: "FS option"
  ProductionEnvVar :: string
  AllowMemoryInProduction :: bool
  SkipMigrations :: bool
  AppVersion :: string
  RequiredSchemaVersion :: int

definition defaults :: "Config \<Rightarrow> Config" where
  "defaults cfg = (if ProductionEnvVar cfg = [] then cfg\<lparr>ProductionEnvVar := ''ENV''\<rparr> else cfg)"

subsection \<open>The migration runner\<close>

text \<open>
  \<^verbatim>\<open>applySchemaInit\<close>. The embedded \<^verbatim>\<open>schema.sql\<close> is always readable. The part after
  \<^verbatim>\<open>BeginTx\<close> is \<open>applySchemaInit_tx\<close>; the deferred \<^verbatim>\<open>tx.Rollback()\<close> runs
  when it returns, whatever it returns. \<open>ts\<close> is the clock (Unix seconds).
\<close>

definition applySchemaInit_tx ::
  "'u engine \<Rightarrow> Config \<Rightarrow> int \<Rightarrow> 'u session \<Rightarrow> string option \<times> 'u session" where
  "applySchemaInit_tx eng cfg ts c =
     (case ExecContext schema_sql c of
        (Inl err, c1) \<Rightarrow> (Some (''exec schema.sql: '' @ err), c1)
      | (Inr _, c1) \<Rightarrow>
          (case ExecContext (insert_migration 0 ''init'' ''schema.sql'' ts) c1 of
             (Inl err, c2) \<Rightarrow> (Some (''record init: '' @ err), c2)
           | (Inr _, c2) \<Rightarrow>
               if AppVersion cfg \<noteq> []
               then (case ExecContext (update_config ''app.version'' (AppVersion cfg) ts) c2 of
                       (Inl err, c3) \<Rightarrow> (Some (''set app.version: '' @ err), c3)
                     | (Inr _, c3) \<Rightarrow>
                         (case ExecContext (update_config ''db.created_at'' (Itoa ts) ts) c3 of
                            (Inl err, c4) \<Rightarrow> (Some (''set db.created_at: '' @ err), c4)
                          | (Inr _, c4) \<Rightarrow> Commit eng c4))
               else Commit eng c2))"

definition applySchemaInit ::
  "'u engine \<Rightarrow> Config \<Rightarrow> int \<Rightarrow> 'u session \<Rightarrow> string option \<times> 'u session" where
  "applySchemaInit eng cfg ts c =
     (case BeginTx eng c of
        Inl err \<Rightarrow> (Some err, c)
      | Inr c0 \<Rightarrow> (case applySchemaInit_tx eng cfg ts c0 of (err, c') \<Rightarrow> (err, Rollback c')))"

text \<open>
  \<^verbatim>\<open>applyMigration\<close>, in the same two parts. \<^verbatim>\<open>RowsAffected\<close> does not fail with the
  SQLite drivers, so the check is on the count alone.
\<close>

definition applyMigration_tx ::
  "'u engine \<Rightarrow> string \<Rightarrow> migrationScript \<Rightarrow> int \<Rightarrow> 'u session \<Rightarrow> string option \<times> 'u session" where
  "applyMigration_tx eng sqlBytes s ts c =
     (case ExecScript (exec_sql eng sqlBytes) c of
        (Inl err, c1) \<Rightarrow> (Some (''exec: '' @ err), c1)
      | (Inr _, c1) \<Rightarrow>
          (case ExecContext (insert_migration (ID s) (Comment s) (Path s) ts) c1 of
             (Inl err, c2) \<Rightarrow> (Some (''record: '' @ err), c2)
           | (Inr _, c2) \<Rightarrow>
               (case ExecContext (update_config ''schema.version'' (Itoa (ID s)) ts) c2 of
                  (Inl err, c3) \<Rightarrow> (Some (''update schema.version: '' @ err), c3)
                | (Inr rows, c3) \<Rightarrow>
                    if rows \<noteq> 1
                    then (Some (''schema.version update affected '' @ Itoa (int rows)
                                  @ '' rows, expected 1''), c3)
                    else Commit eng c3)))"

definition applyMigration ::
  "'u engine \<Rightarrow> FS \<Rightarrow> migrationScript \<Rightarrow> int \<Rightarrow> 'u session \<Rightarrow> string option \<times> 'u session" where
  "applyMigration eng migrationsFS s now c =
     (case ReadFile migrationsFS (Path s) of
        Inl err \<Rightarrow> (Some (''read: '' @ err), c)
      | Inr sqlBytes \<Rightarrow>
          (case BeginTx eng c of
             Inl err \<Rightarrow> (Some err, c)
           | Inr c0 \<Rightarrow>
               (case applyMigration_tx eng sqlBytes s now c0 of
                  (err, c') \<Rightarrow> (err, Rollback c'))))"

text \<open>
  The loop of \<^verbatim>\<open>migrate\<close> over the discovered scripts; \<open>appliedPaths\<close> is the map
  \<^verbatim>\<open>map[string]bool\<close> built from the applied records.
\<close>

fun applyPending ::
  "'u engine \<Rightarrow> FS \<Rightarrow> int \<Rightarrow> (string \<Rightarrow> bool) \<Rightarrow> migrationScript list \<Rightarrow> 'u session
     \<Rightarrow> string option \<times> 'u session" where
  "applyPending eng migrationsFS now appliedPaths [] c = (None, c)"
| "applyPending eng migrationsFS now appliedPaths (s # ss) c =
     (if appliedPaths (Path s) then applyPending eng migrationsFS now appliedPaths ss c
      else (case applyMigration eng migrationsFS s now
                   (logTo Debug ''applying migration'' [(''path'', Path s)] c) of
              (Some err, c') \<Rightarrow> (Some (''apply '' @ Path s @ '': '' @ err), c')
            | (None, c') \<Rightarrow> applyPending eng migrationsFS now appliedPaths ss c'))"

definition mkAppliedPaths :: "AppliedMigration list \<Rightarrow> string \<Rightarrow> bool" where
  "mkAppliedPaths applied = foldl (\<lambda>m a. m(Path a := True)) (\<lambda>p. False) applied"

text \<open>
  \<^verbatim>\<open>migrate\<close>. The clock is read once in \<^verbatim>\<open>applySchemaInit\<close> and once before the loop;
  both readings are \<open>now\<close>.
\<close>

definition migrate ::
  "'u engine \<Rightarrow> Config \<Rightarrow> int \<Rightarrow> 'u session \<Rightarrow> string option \<times> 'u session" where
  "migrate eng cfg now c =
     (let c0 = logTo Debug ''starting migration'' [] c in
      case fetchSchemaVersion (db c0) of
        Inl err \<Rightarrow> (Some err, c0)
      | Inr version \<Rightarrow>
          (case (if version = None
                 then applySchemaInit eng cfg now (logTo Debug ''initializing schema'' [] c0)
                 else (None, c0)) of
             (Some err, c1) \<Rightarrow> (Some (''init schema: '' @ err), c1)
           | (None, c1) \<Rightarrow>
               (case Migrations cfg of
                  None \<Rightarrow> (None, c1)
                | Some migrationsFS \<Rightarrow>
                    (case listMigrationFiles migrationsFS (logged c1) of
                       (Inl err, lg) \<Rightarrow> (Some (''list migrations: '' @ err), c1\<lparr>logged := lg\<rparr>)
                     | (Inr scripts, lg) \<Rightarrow>
                         if scripts = []
                         then (None, logTo Debug ''no user migrations to apply'' []
                                       (c1\<lparr>logged := lg\<rparr>))
                         else (case fetchAppliedMigrations (db c1) of
                                 Inl err \<Rightarrow> (Some (''fetch applied: '' @ err), c1\<lparr>logged := lg\<rparr>)
                               | Inr applied \<Rightarrow>
                                   applyPending eng migrationsFS now (mkAppliedPaths applied)
                                     scripts (c1\<lparr>logged := lg\<rparr>))))))"

subsection \<open>The world: environment, files and the in-memory database\<close>

text \<open>
  What \<^verbatim>\<open>os.Stat\<close> finds at a path: a directory, a regular file (holding a database,
  or \<open>None\<close> when its content is not a database) or something else (a device, a socket).
  Paths are the keys of the file system as they are written: two different strings are
  two different files.
\<close>

datatype 'u node = Directory | RegularFile "'u database option" | Irregular

record 'u world =
  env :: "string \<Rightarrow> string option"
  files :: "string \<Rightarrow> 'u node option"
  memory :: "'u database"
  logger :: "log_entry list"

text \<open>
  The platform: the SQL engine, \<^verbatim>\<open>filepath.Dir\<close> and \<^verbatim>\<open>os.Remove\<close> (its error, and the
  file system after it). The package only calls them.
\<close>

record 'u platform =
  sql :: "'u engine"
  Dir :: "string \<Rightarrow> string"
  Remove :: "string \<Rightarrow> (string \<Rightarrow> 'u node option) \<Rightarrow> string option \<times> (string \<Rightarrow> 'u node option)"

definition logW :: "level \<Rightarrow> string \<Rightarrow> (string \<times> string) list \<Rightarrow> 'u world \<Rightarrow> 'u world" where
  "logW l msg attrs w = w\<lparr>logger := logger w @ [(l, msg, attrs)]\<rparr>"

text \<open>\<^verbatim>\<open>os.Getenv\<close>: the empty string for a variable that is not set.\<close>

definition Getenv :: "'u world \<Rightarrow> string \<Rightarrow> string" where
  "Getenv w k = (case env w k of None \<Rightarrow> [] | Some v \<Rightarrow> v)"

text \<open>
  \<^verbatim>\<open>strings.EqualFold\<close>, on ASCII letters. Unicode case folding relates no other
  character to a letter of \<^verbatim>\<open>production\<close> (only \<^verbatim>\<open>k\<close> and \<^verbatim>\<open>s\<close> have such
  relatives), so this is exact where the package calls it.
\<close>

definition toLower :: "char \<Rightarrow> char" where
  "toLower c =
     (case map_of (zip ''ABCDEFGHIJKLMNOPQRSTUVWXYZ'' ''abcdefghijklmnopqrstuvwxyz'') c of
        None \<Rightarrow> c | Some l \<Rightarrow> l)"

definition EqualFold :: "string \<Rightarrow> string \<Rightarrow> bool" where
  "EqualFold s t = (map toLower s = map toLower t)"

definition isProduction :: "'u world \<Rightarrow> Config \<Rightarrow> bool" where
  "isProduction w cfg = EqualFold (Getenv w (ProductionEnvVar cfg)) ''production''"

definition isMemory :: "Config \<Rightarrow> bool" where
  "isMemory cfg = (Path_cfg cfg = '':memory:'' \<or> HasPrefix (Path_cfg cfg) ''file::memory:'')"

subsection \<open>File system helpers and path validation\<close>

definition fileExists :: "'u world \<Rightarrow> string \<Rightarrow> bool" where
  "fileExists w path =
     (case files w path of
        None \<Rightarrow> False
      | Some Directory \<Rightarrow> True
      | Some (RegularFile _) \<Rightarrow> True
      | Some Irregular \<Rightarrow> False)"

definition isDirectory :: "'u world \<Rightarrow> string \<Rightarrow> bool" where
  "isDirectory w path = (files w path = Some Directory)"


text \<open>\<^verbatim>\<open>filepath.IsAbs\<close> and \<^verbatim>\<open>filepath.Ext\<close> on Unix.\<close>

definition IsAbs :: "string \<Rightarrow> bool" where
  "IsAbs path = HasPrefix path ''/''"

definition Ext :: "string \<Rightarrow> string" where
  "Ext path =
     (let base = rev (takeWhile (\<lambda>c. c \<noteq> CHR ''/'') (rev path))
      in if CHR ''.'' \<in> set base
         then CHR ''.'' # rev (takeWhile (\<lambda>c. c \<noteq> CHR ''.'') (rev base))
         else [])"

definition validatePersistentPath :: "'u platform \<Rightarrow> 'u world \<Rightarrow> string \<Rightarrow> string option" where
  "validatePersistentPath plat w path =
     (if \<not> IsAbs path then Some (path @ '': persistent database path must be absolute'')
      else if Ext path \<noteq> ''.db'' then Some (path @ '': expected .db extension'')
      else if isDirectory w path then Some (path @ '': path is a directory'')
      else if \<not> isDirectory w (Dir plat path)
      then Some (Dir plat path @ '': parent directory does not exist'')
      else None)"

subsection \<open>Opening a database\<close>

text \<open>The pragma tables and \<^verbatim>\<open>buildDSN\<close> of the default build (modernc.org/sqlite).\<close>

record pragma =
  p_name :: string
  p_value :: string

definition memoryPragmas :: "pragma list" where
  "memoryPragmas =
     [\<lparr>p_name = ''foreign_keys'', p_value = ''ON''\<rparr>,
      \<lparr>p_name = ''busy_timeout'', p_value = ''5000''\<rparr>,
      \<lparr>p_name = ''journal_mode'', p_value = ''MEMORY''\<rparr>,
      \<lparr>p_name = ''synchronous'', p_value = ''OFF''\<rparr>,
      \<lparr>p_name = ''temp_store'', p_value = ''MEMORY''\<rparr>,
      \<lparr>p_name = ''locking_mode'', p_value = ''EXCLUSIVE''\<rparr>]"

definition persistentPragmas :: "pragma list" where
  "persistentPragmas =
     [\<lparr>p_name = ''foreign_keys'', p_value = ''ON''\<rparr>,
      \<lparr>p_name = ''busy_timeout'', p_value = ''5000''\<rparr>,
      \<lparr>p_name = ''journal_mode'', p_value = ''WAL''\<rparr>,
      \<lparr>p_name = ''synchronous'', p_value = ''NORMAL''\<rparr>,
      \<lparr>p_name = ''temp_store'', p_value = ''FILE''\<rparr>,
      \<lparr>p_name = ''locking_mode'', p_value = ''NORMAL''\<rparr>]"

fun pragmaParams :: "string \<Rightarrow> nat \<Rightarrow> pragma list \<Rightarrow> string" where
  "pragmaParams path i [] = []"
| "pragmaParams path i (p # ps) =
     (if path = '':memory:'' \<or> i > 0 then ''&'' else ''?'')
       @ ''_pragma='' @ p_name p @ ''('' @ p_value p @ '')'' @ pragmaParams path (Suc i) ps"

definition buildDSN :: "string \<Rightarrow> pragma list \<Rightarrow> string" where
  "buildDSN path pragmas =
     (if path = '':memory:'' then ''file::memory:?cache=shared'' else ''file:'' @ path)
       @ pragmaParams path 0 pragmas"

text \<open>
  The driver hands the connection string to SQLite, which reads a name that begins with
  \<^verbatim>\<open>file:\<close> as a URI. The file it opens is the path part of the URI: an authority
  after \<^verbatim>\<open>//\<close> must be empty or \<^verbatim>\<open>localhost\<close>; the path ends at the first \<^verbatim>\<open>?\<close>
  or \<^verbatim>\<open>#\<close>; \<^verbatim>\<open>%\<close> followed by two hexadecimal digits stands for the byte of that
  value, and \<^verbatim>\<open>%00\<close> ends the path. The package's own query parameters
  (\<^verbatim>\<open>_pragma\<close>, \<^verbatim>\<open>cache\<close>) do not change the file that is opened, and the query
  parameters are not interpreted any further here. Every connection string of
  \<open>buildDSN\<close> begins with \<^verbatim>\<open>file:\<close>; a name without that prefix is a file name, which
  the driver cuts at its first \<^verbatim>\<open>?\<close>.
\<close>

definition is_xdigit :: "char \<Rightarrow> bool" where
  "is_xdigit c = (is_digit c \<or> (CHR ''a'' \<le> c \<and> c \<le> CHR ''f'') \<or> (CHR ''A'' \<le> c \<and> c \<le> CHR ''F''))"

definition hex_val :: "char \<Rightarrow> nat" where
  "hex_val c =
     (if is_digit c then of_char c - 48
      else if CHR ''a'' \<le> c then of_char c - 87
      else of_char c - 55)"

fun uriPath :: "string \<Rightarrow> string" where
  "uriPath [] = []"
| "uriPath (c # cs) =
     (if c = CHR ''?'' \<or> c = CHR ''#'' then []
      else if c = CHR ''%'' \<and> 2 \<le> length cs \<and> is_xdigit (cs ! 0) \<and> is_xdigit (cs ! 1)
      then (let octet = 16 * hex_val (cs ! 0) + hex_val (cs ! 1)
            in if octet = 0 then [] else char_of octet # uriPath (drop 2 cs))
      else c # uriPath cs)"

definition uriFile :: "string \<Rightarrow> string + string" where
  "uriFile dsn =
     (if \<not> HasPrefix dsn ''file:'' then Inr (takeWhile (\<lambda>c. c \<noteq> CHR ''?'') dsn)
      else (let r = drop 5 dsn
            in if take 2 r = ''//''
               then (let auth = takeWhile (\<lambda>c. c \<noteq> CHR ''/'') (drop 2 r)
                     in if auth = [] \<or> auth = ''localhost''
                        then Inr (uriPath (dropWhile (\<lambda>c. c \<noteq> CHR ''/'') (drop 2 r)))
                        else Inl (''invalid uri authority: '' @ auth))
               else Inr (uriPath r)))"

text \<open>
  What a connection string opens: the shared in-memory database for the name
  \<^verbatim>\<open>:memory:\<close>, a private temporary database for the empty name, and otherwise the file
  of that name.
\<close>

datatype target = SharedMemory | Temporary | FileAt string

definition uriTarget :: "string \<Rightarrow> string + target" where
  "uriTarget dsn =
     (case uriFile dsn of
        Inl err \<Rightarrow> Inl err
      | Inr name \<Rightarrow>
          Inr (if name = [] then Temporary
               else if name = '':memory:'' then SharedMemory
               else FileAt name))"

text \<open>
  \<^verbatim>\<open>sql.Open\<close> with \<^verbatim>\<open>PingContext\<close>: the first connection, on the target of the
  connection string. SQLite creates the file (empty) when nothing is there, and refuses
  what is not a database file. The result is the database found and the world after the
  connection. The handle \<^verbatim>\<open>*sql.DB\<close> is the connection string it was opened with.
  \<^verbatim>\<open>sql.Open\<close> itself fails only for a driver that is not registered, which is not
  modelled; the effects of the pragmas are not modelled either.
\<close>

type_synonym DB = string

definition connect :: "'u engine \<Rightarrow> string \<Rightarrow> 'u world \<Rightarrow> string + ('u database \<times> 'u world)" where
  "connect eng dsn w =
     (case uriTarget dsn of
        Inl err \<Rightarrow> Inl err
      | Inr SharedMemory \<Rightarrow> Inr (memory w, w)
      | Inr Temporary \<Rightarrow>
          Inr (\<lparr>config_table = None, schema_migrations_table = None, user_data = blank eng\<rparr>, w)
      | Inr (FileAt name) \<Rightarrow>
          (case files w name of
             None \<Rightarrow>
               (let d = \<lparr>config_table = None, schema_migrations_table = None,
                         user_data = blank eng\<rparr>
                in Inr (d, w\<lparr>files := (files w)(name \<mapsto> RegularFile (Some d))\<rparr>))
           | Some (RegularFile (Some d)) \<Rightarrow> Inr (d, w)
           | Some (RegularFile None) \<Rightarrow> Inl ''file is not a database''
           | Some Directory \<Rightarrow> Inl ''unable to open database file''
           | Some Irregular \<Rightarrow> Inl ''unable to open database file''))"

text \<open>
  What a commit through the handle writes: the database behind the target of the
  connection string (a temporary database is not kept).
\<close>

definition store :: "string \<Rightarrow> 'u database \<Rightarrow> 'u world \<Rightarrow> 'u world" where
  "store dsn d w =
     (case uriTarget dsn of
        Inr SharedMemory \<Rightarrow> w\<lparr>memory := d\<rparr>
      | Inr (FileAt name) \<Rightarrow> w\<lparr>files := (files w)(name \<mapsto> RegularFile (Some d))\<rparr>
      | _ \<Rightarrow> w)"

text \<open>
  The migration step of \<^verbatim>\<open>openAndMigrate\<close>: \<open>migrate\<close> runs in a session on the database
  \<open>d\<close> that was opened with \<open>dsn\<close>, unless \<^verbatim>\<open>SkipMigrations\<close> is set. The result is the
  error, the database after the step and the world after it.
\<close>

definition runMigrations ::
  "'u engine \<Rightarrow> Config \<Rightarrow> string \<Rightarrow> int \<Rightarrow> 'u database \<Rightarrow> 'u world
     \<Rightarrow> string option \<times> 'u database \<times> 'u world" where
  "runMigrations eng cfg dsn now d w =
     (if \<not> SkipMigrations cfg
      then (case migrate eng cfg now \<lparr>db = d, tx = None, logged = logger w\<rparr> of
              (err, c) \<Rightarrow> (err, db c, store dsn (db c) (w\<lparr>logger := logged c\<rparr>)))
      else (None, d, w))"

definition openAndMigrate ::
  "'u platform \<Rightarrow> Config \<Rightarrow> pragma list \<Rightarrow> int \<Rightarrow> 'u world \<Rightarrow> (string + DB) \<times> 'u world" where
  "openAndMigrate plat cfg pragmas now w =
     (let dsn = buildDSN (Path_cfg cfg) pragmas;
          w0 = logW Debug ''opening database'' [(''dsn'', dsn)] w
      in case connect (sql plat) dsn w0 of
           Inl err \<Rightarrow> (Inl (''ping: '' @ err), w0)
         | Inr (d, w1) \<Rightarrow>
             (case runMigrations (sql plat) cfg dsn now d w1 of
                (Some err, d2, w2) \<Rightarrow> (Inl (''migrate: '' @ err), w2)
              | (None, d2, w2) \<Rightarrow>
                  if RequiredSchemaVersion cfg \<noteq> 0
                  then (case fetchSchemaVersion d2 of
                          Inl err \<Rightarrow> (Inl (''fetch schema version: '' @ err), w2)
                        | Inr None \<Rightarrow>
                            (Inl ''schema version check failed: database not initialized'', w2)
                        | Inr (Some version) \<Rightarrow>
                            if version \<noteq> RequiredSchemaVersion cfg
                            then (Inl (''schema version mismatch: required ''
                                         @ Itoa (RequiredSchemaVersion cfg)
                                         @ '', found '' @ Itoa version), w2)
                            else (Inr dsn, w2))
                  else (Inr dsn, w2)))"

definition openMemory :: "'u platform \<Rightarrow> Config \<Rightarrow> int \<Rightarrow> 'u world \<Rightarrow> (string + DB) \<times> 'u world" where
  "openMemory plat cfg now w =
     (if isProduction w cfg \<and> \<not> AllowMemoryInProduction cfg
      then (Inl (''in-memory database not allowed in production (''
                   @ ProductionEnvVar cfg @ ''=production)''), w)
      else openAndMigrate plat cfg memoryPragmas now (logW Info ''DB mode: in-memory'' [] w))"

definition openPersistent :: "'u platform \<Rightarrow> Config \<Rightarrow> int \<Rightarrow> 'u world \<Rightarrow> (string + DB) \<times> 'u world" where
  "openPersistent plat cfg now w =
     (case validatePersistentPath plat w (Path_cfg cfg) of
        Some err \<Rightarrow> (Inl err, w)
      | None \<Rightarrow>
          if \<not> fileExists w (Path_cfg cfg)
          then (Inl (Path_cfg cfg
                       @ '': database file not found (use Create to make a new database)''), w)
          else openAndMigrate plat cfg persistentPragmas now
                 (logW Info ''DB mode: persistent'' [(''path'', Path_cfg cfg)] w))"

subsection \<open>The public operations\<close>

definition Open :: "'u platform \<Rightarrow> Config \<Rightarrow> int \<Rightarrow> 'u world \<Rightarrow> (string + DB) \<times> 'u world" where
  "Open plat cfg0 now w =
     (let cfg = defaults cfg0
      in if isMemory cfg then openMemory plat cfg now w else openPersistent plat cfg now w)"

text \<open>\<^verbatim>\<open>Create\<close>. The final \<^verbatim>\<open>db.Close()\<close> returns no error.\<close>

definition Create :: "'u platform \<Rightarrow> Config \<Rightarrow> int \<Rightarrow> 'u world \<Rightarrow> string option \<times> 'u world" where
  "Create plat cfg0 now w =
     (let cfg = defaults cfg0
      in if isMemory cfg then (Some ''Create requires a persistent path, not :memory:'', w)
         else (case validatePersistentPath plat w (Path_cfg cfg) of
                 Some err \<Rightarrow> (Some err, w)
               | None \<Rightarrow>
                   if fileExists w (Path_cfg cfg)
                   then (Some (Path_cfg cfg @ '': file already exists''), w)
                   else (case openAndMigrate plat cfg persistentPragmas now
                                (logW Info ''creating database'' [(''path'', Path_cfg cfg)] w) of
                           (Inl err, w') \<Rightarrow> (Some err, w')
                         | (Inr h, w') \<Rightarrow> (None, w'))))"



text \<open>\<^verbatim>\<open>type MigrationStatus struct\<close>, and its zero value.\<close>

record MigrationStatus =
  SchemaVersion :: int
  Applied :: "AppliedMigration list"
  Pending :: "string list"
  IsInitialized :: bool

definition zeroStatus :: MigrationStatus where
  "zeroStatus = \<lparr>SchemaVersion = 0, Applied = [], Pending = [], IsInitialized = False\<rparr>"

text \<open>
  \<^verbatim>\<open>getStatus\<close>, on the database behind the handle; the logger is passed through
  \<open>listMigrationFiles\<close>. The loop that collects the pending paths is a filter.
\<close>

definition getStatus ::
  "'u database \<Rightarrow> Config \<Rightarrow> log_entry list \<Rightarrow> (string + MigrationStatus) \<times> log_entry list" where
  "getStatus d cfg lg =
     (case fetchSchemaVersion d of
        Inl err \<Rightarrow> (Inl err, lg)
      | Inr None \<Rightarrow> (Inr (zeroStatus\<lparr>IsInitialized := False\<rparr>), lg)
      | Inr (Some version) \<Rightarrow>
          (case fetchAppliedMigrations d of
             Inl err \<Rightarrow> (Inl err, lg)
           | Inr applied \<Rightarrow>
               (let status = zeroStatus\<lparr>IsInitialized := True, SchemaVersion := version,
                                         Applied := applied\<rparr>
                in case Migrations cfg of
                     None \<Rightarrow> (Inr status, lg)
                   | Some migrationsFS \<Rightarrow>
                       (case listMigrationFiles migrationsFS lg of
                          (Inl err, lg') \<Rightarrow> (Inl err, lg')
                        | (Inr scripts, lg') \<Rightarrow>
                            (Inr (status\<lparr>Pending :=
                                    map Path (filter (\<lambda>s. \<not> mkAppliedPaths applied (Path s))
                                                scripts)\<rparr>), lg')))))"

text \<open>
  The database a handle reads: the one behind the target of its connection string, if
  there is one.
\<close>

definition database_at :: "'u world \<Rightarrow> DB \<Rightarrow> 'u database option" where
  "database_at w h =
     (case uriTarget h of
        Inr SharedMemory \<Rightarrow> Some (memory w)
      | Inr (FileAt name) \<Rightarrow>
          (case files w name of Some (RegularFile (Some d)) \<Rightarrow> Some d | _ \<Rightarrow> None)
      | _ \<Rightarrow> None)"

definition Status ::
  "'u platform \<Rightarrow> Config \<Rightarrow> int \<Rightarrow> 'u world \<Rightarrow> (string + MigrationStatus) \<times> 'u world" where
  "Status plat cfg0 now w =
     (let cfg = (defaults cfg0)\<lparr>SkipMigrations := True\<rparr>
      in if isMemory cfg then (Inl ''cannot check status of in-memory database'', w)
         else if \<not> fileExists w (Path_cfg cfg)
         then (Inr (zeroStatus\<lparr>IsInitialized := False\<rparr>), w)
         else (case openPersistent plat cfg now w of
                 (Inl err, w') \<Rightarrow> (Inl err, w')
               | (Inr h, w') \<Rightarrow>
                   (case database_at w' h of
                      None \<Rightarrow> (Inl ''unable to open database file'', w')
                    | Some d \<Rightarrow>
                        (case getStatus d cfg (logger w') of
                           (res, lg) \<Rightarrow> (res, w'\<lparr>logger := lg\<rparr>)))))"

subsection \<open>Notions used to state the properties of discovery\<close>

text \<open>
  An entry is a migration file when it is not a directory and its name matches the
  pattern; \<open>migrationNames\<close> are the names of those entries, in directory order.
  \<open>idOf\<close> and \<open>commentOf\<close> read the two groups of a matching name, and
  \<open>scriptOf\<close> is the script a matching name stands for.
\<close>

definition isMigrationFile :: "dirEntry \<Rightarrow> bool" where
  "isMigrationFile e = (\<not> IsDir e \<and> FindStringSubmatch (Name e) \<noteq> None)"

definition migrationNames :: "dirEntry list \<Rightarrow> string list" where
  "migrationNames entries = map Name (filter isMigrationFile entries)"

definition idOf :: "string \<Rightarrow> int" where
  "idOf name = int (decimal (take 14 name))"

definition commentOf :: "string \<Rightarrow> string" where
  "commentOf name = (case FindStringSubmatch name of Some (m1, m2) \<Rightarrow> m2 | None \<Rightarrow> [])"

definition scriptOf :: "string \<Rightarrow> migrationScript" where
  "scriptOf name = \<lparr>ID = idOf name, Comment = commentOf name, Path = name\<rparr>"

definition duplicateError :: "int \<Rightarrow> string \<Rightarrow> string \<Rightarrow> string" where
  "duplicateError i a b =
     ''duplicate migration ID '' @ Itoa i @ '': '' @ quote a @ '' and '' @ quote b"

text \<open>
  The invariant of the loop of \<open>scanEntries\<close>: \<^verbatim>\<open>seenIDs\<close> maps exactly the ids of
  the names collected so far, each to its name.
\<close>

definition seen_inv :: "(int \<rightharpoonup> string) \<Rightarrow> string list \<Rightarrow> bool" where
  "seen_inv seenIDs ps = (\<forall>i n. seenIDs i = Some n \<longleftrightarrow> (n \<in> set ps \<and> idOf n = i))"

text \<open>A directory used as a concrete example.\<close>

definition entries0 :: "dirEntry list" where
  "entries0 = [\<lparr>Name = ''20260101000002_create_posts.sql'', IsDir = False\<rparr>,
               \<lparr>Name = ''archive'', IsDir = True\<rparr>,
               \<lparr>Name = ''README.md'', IsDir = False\<rparr>,
               \<lparr>Name = ''20260101000001_create_users.sql'', IsDir = False\<rparr>]"

definition fs0 :: FS where
  "fs0 = \<lparr>ReadDir = Inr entries0,
          ReadFile = (\<lambda>name. if name \<in> set (migrationNames entries0)
                             then Inr (''-- '' @ name) else Inl ''file does not exist'')\<rparr>"

subsection \<open>Notions used to state the properties of a failing script\<close>

text \<open>
  The text of a script is confined to its transaction on the committed database \<open>d\<close> when
  running it in a transaction that has just begun on \<open>d\<close> leaves the committed database
  alone and, if it succeeds, leaves the transaction open: the text does not commit what it
  has done, and it does not take the transaction away from the statements that record it.
\<close>

definition confined :: "'u engine \<Rightarrow> string \<Rightarrow> 'u database \<Rightarrow> bool" where
  "confined eng sqlBytes d =
     (case exec_sql eng sqlBytes (d, Some d) of
        (Inl err, (d', t')) \<Rightarrow> d' = d
      | (Inr n, (d', t')) \<Rightarrow> d' = d \<and> t' \<noteq> None)"

subsection \<open>Notions used to state the properties of Create and Status\<close>

text \<open>
  A path is plain when the connection string built from it names the file at that very
  path: it is not empty, is not \<^verbatim>\<open>:memory:\<close>, holds none of the characters \<^verbatim>\<open>?\<close>,
  \<^verbatim>\<open>#\<close> and \<^verbatim>\<open>%\<close> that a URI reads as syntax, and does not begin with \<^verbatim>\<open>//\<close> (where
  a URI has its authority).
\<close>

definition plain_path :: "string \<Rightarrow> bool" where
  "plain_path p =
     (p \<noteq> [] \<and> p \<noteq> '':memory:'' \<and> CHR ''?'' \<notin> set p \<and> CHR ''#'' \<notin> set p
      \<and> CHR ''%'' \<notin> set p \<and> take 2 p \<noteq> ''//'')"

subsection \<open>Notions used to state the properties of Delete\<close>



subsection \<open>Concrete examples\<close>

text \<open>
  An engine, databases and sessions used as concrete examples. The scripts of \<open>eng_ex\<close>
  hold no transaction control.
\<close>

definition eng_ex :: "nat engine" where
  "eng_ex = \<lparr>exec_sql = (\<lambda>sqlBytes. on_transaction (\<lambda>d.
               if sqlBytes = ''-- 20260101000002_create_posts.sql''
               then (Inl ''near line 1: syntax error'', d\<lparr>user_data := 0\<rparr>)
               else (Inr 0, d\<lparr>user_data := Suc (user_data d)\<rparr>))),
            begin_error = (\<lambda>d. None),
            commit_error = (\<lambda>d. None),
            blank = 0\<rparr>"

text \<open>
  A script that ends its own transaction, and an engine that runs it: the table is
  created in the working copy, \<^verbatim>\<open>COMMIT\<close> installs the working copy and leaves the
  connection in autocommit mode, and the last statement fails. (Outside a transaction the
  table is created at once and \<^verbatim>\<open>COMMIT\<close> is refused.) Every other text is run as by
  \<open>eng_ex\<close>.
\<close>

definition script_commit :: migrationScript where
  "script_commit = \<lparr>ID = 20260101000003, Comment = ''commit'',
                    Path = ''20260101000003_commit.sql''\<rparr>"

definition fs_commit :: FS where
  "fs_commit =
     \<lparr>ReadDir = Inr [\<lparr>Name = ''20260101000003_commit.sql'', IsDir = False\<rparr>],
      ReadFile = (\<lambda>name. if name = ''20260101000003_commit.sql''
                         then Inr ''CREATE TABLE a (x INTEGER); COMMIT; INSERT INTO b VALUES (1);''
                         else Inl ''file does not exist'')\<rparr>"

definition eng_commit :: "nat engine" where
  "eng_commit =
     eng_ex\<lparr>exec_sql := (\<lambda>sqlBytes (d, t).
       if sqlBytes = ''CREATE TABLE a (x INTEGER); COMMIT; INSERT INTO b VALUES (1);''
       then (case t of
               Some wc \<Rightarrow> (Inl ''no such table: b'', (wc\<lparr>user_data := Suc (user_data wc)\<rparr>, None))
             | None \<Rightarrow> (Inl ''cannot commit - no transaction is active'',
                         (d\<lparr>user_data := Suc (user_data d)\<rparr>, None)))
       else exec_sql eng_ex sqlBytes (d, t))\<rparr>"

definition db_init :: "nat database" where
  "db_init = \<lparr>config_table = Some seed_config,
          schema_migrations_table =
            Some [\<lparr>sm_id = 0, sm_comment = ''init'', sm_path = ''schema.sql'', sm_applied_at = 5,
                    sm_created_at = 5, sm_updated_at = 5\<rparr>],
          user_data = 0\<rparr>"

definition sess_init :: "nat session" where
  "sess_init = \<lparr>db = db_init, tx = None, logged = []\<rparr>"

definition scripts_ex :: "migrationScript list" where
  "scripts_ex =
     [\<lparr>ID = 20260101000001, Comment = ''create_users'', Path = ''20260101000001_create_users.sql''\<rparr>,
      \<lparr>ID = 20260101000002, Comment = ''create_posts'', Path = ''20260101000002_create_posts.sql''\<rparr>]"

definition db_done :: "nat database" where
  "db_done = \<lparr>config_table =
            Some [\<lparr>cfg_key = ''schema.version'', cfg_value = ''20260101000002'',
                    cfg_created_at = 0, cfg_updated_at = 7\<rparr>,
                  \<lparr>cfg_key = ''app.version'', cfg_value = '''', cfg_created_at = 0, cfg_updated_at = 0\<rparr>,
                  \<lparr>cfg_key = ''db.created_at'', cfg_value = '''', cfg_created_at = 0, cfg_updated_at = 0\<rparr>],
          schema_migrations_table =
            Some [\<lparr>sm_id = 0, sm_comment = ''init'', sm_path = ''schema.sql'', sm_applied_at = 5,
                    sm_created_at = 5, sm_updated_at = 5\<rparr>,
                  \<lparr>sm_id = 20260101000001, sm_comment = ''create_users'',
                    sm_path = ''20260101000001_create_users.sql'', sm_applied_at = 7,
                    sm_created_at = 7, sm_updated_at = 7\<rparr>,
                  \<lparr>sm_id = 20260101000002, sm_comment = ''create_posts'',
                    sm_path = ''20260101000002_create_posts.sql'', sm_applied_at = 7,
                    sm_created_at = 7, sm_updated_at = 7\<rparr>],
          user_data = 2\<rparr>"

definition sess_done :: "nat session" where
  "sess_done = \<lparr>db = db_done, tx = None, logged = []\<rparr>"

definition applied_done :: "AppliedMigration list" where
  "applied_done =
     [\<lparr>ID = 20260101000001, Comment = ''create_users'', Path = ''20260101000001_create_users.sql'',
       AppliedAt = 7\<rparr>,
      \<lparr>ID = 20260101000002, Comment = ''create_posts'', Path = ''20260101000002_create_posts.sql'',
       AppliedAt = 7\<rparr>,
      \<lparr>ID = 0, Comment = ''init'', Path = ''schema.sql'', AppliedAt = 5\<rparr>]"

definition cfg_ex :: Config where
  "cfg_ex = \<lparr>Path_cfg = '':memory:'', Migrations = Some fs0, ProductionEnvVar = '''',
           AllowMemoryInProduction = False, SkipMigrations = False, AppVersion = '''',
           RequiredSchemaVersion = 0\<rparr>"

definition entries_dup :: "dirEntry list" where
  "entries_dup = [\<lparr>Name = ''20260101000001_create_users.sql'', IsDir = False\<rparr>,
                  \<lparr>Name = ''20260101000001_create_posts.sql'', IsDir = False\<rparr>]"

definition fs_dup :: FS where
  "fs_dup = \<lparr>ReadDir = Inr entries_dup, ReadFile = (\<lambda>name. Inr (''-- '' @ name))\<rparr>"

definition db_empty :: "nat database" where
  "db_empty = \<lparr>config_table = None, schema_migrations_table = None, user_data = 0\<rparr>"

definition db_norow :: "nat database" where
  "db_norow = \<lparr>config_table =
                 Some [\<lparr>cfg_key = ''app.version'', cfg_value = ''1.2.3'', cfg_created_at = 0,
                         cfg_updated_at = 0\<rparr>],
               schema_migrations_table = Some [], user_data = 0\<rparr>"

definition dirname :: "string \<Rightarrow> string" where
  "dirname path =
     (let d = rev (dropWhile (\<lambda>c. c \<noteq> CHR ''/'') (rev path))
      in if length d \<le> 1 then d else butlast d)"

definition Remove_ex :: "string \<Rightarrow> (string \<Rightarrow> nat node option) \<Rightarrow> string option \<times> (string \<Rightarrow> nat node option)" where
  "Remove_ex name fs =
     (if name = ''/data/app.db-shm'' then (Some (''remove '' @ name @ '': permission denied''), fs)
      else (None, fs(name := None)))"

definition plat_ex :: "nat platform" where
  "plat_ex = \<lparr>sql = eng_ex, Dir = dirname, Remove = Remove_ex\<rparr>"

definition world_prod :: "nat world" where
  "world_prod = \<lparr>env = [''ENV'' \<mapsto> ''Production''],
                 files = [''/data'' \<mapsto> Directory],
                 memory = db_empty,
                 logger = []\<rparr>"

definition cfg_mem :: Config where
  "cfg_mem = cfg_ex\<lparr>Migrations := None\<rparr>"

definition world_done :: "nat world" where
  "world_done = \<lparr>env = Map.empty,
                 files = [''/data'' \<mapsto> Directory, ''/data/app.db'' \<mapsto> RegularFile (Some db_done)],
                 memory = db_empty,
                 logger = []\<rparr>"

definition cfg_file :: Config where
  "cfg_file = \<lparr>Path_cfg = ''/data/app.db'', Migrations = None, ProductionEnvVar = ''ENV'',
               AllowMemoryInProduction = False, SkipMigrations = True, AppVersion = '''',
               RequiredSchemaVersion = 0\<rparr>"





definition world_uninit :: "nat world" where
  "world_uninit = \<lparr>env = Map.empty,
                   files = [''/data'' \<mapsto> Directory,
                            ''/data/app.db'' \<mapsto> RegularFile (Some db_empty)],
                   memory = db_empty, logger = []\<rparr>"

definition world_init :: "nat world" where
  "world_init = \<lparr>env = Map.empty,
                 files = [''/data'' \<mapsto> Directory,
                          ''/data/app.db'' \<mapsto> RegularFile (Some db_init)],
                 memory = db_empty, logger = []\<rparr>"

definition cfg_status :: Config where
  "cfg_status = \<lparr>Path_cfg = ''/data/app.db'', Migrations = Some fs0, ProductionEnvVar = '''',
                 AllowMemoryInProduction = False, SkipMigrations = False, AppVersion = '''',
                 RequiredSchemaVersion = 0\<rparr>"

definition status_init :: MigrationStatus where
  "status_init =
     \<lparr>SchemaVersion = 0,
      Applied = [\<lparr>ID = 0, Comment = ''init'', Path = ''schema.sql'', AppliedAt = 5\<rparr>],
      Pending = [''20260101000001_create_users.sql'', ''20260101000002_create_posts.sql''],
      IsInitialized = True\<rparr>"


section \<open>Auxiliary lemmas\<close>

subsection \<open>Decimal digits and the byte-wise order\<close>

lemma is_digit_of_char: "is_digit c \<longleftrightarrow> 48 \<le> (of_char c :: nat) \<and> (of_char c :: nat) \<le> 57"
  by (simp add: is_digit_def less_eq_char_def)

lemma digit_val_less: "is_digit c \<Longrightarrow> digit_val c < 10"
  unfolding is_digit_of_char digit_val_def by arith

lemma digit_val_mono: "is_digit c \<Longrightarrow> is_digit d \<Longrightarrow> c < d \<Longrightarrow> digit_val c < digit_val d"
  by (simp add: is_digit_of_char digit_val_def less_char_def)

lemma digit_val_inj: "is_digit c \<Longrightarrow> is_digit d \<Longrightarrow> digit_val c = digit_val d \<Longrightarrow> c = d"
proof -
  assume a: "is_digit c" "is_digit d" "digit_val c = digit_val d"
  then have "(of_char c :: nat) = of_char d"
    unfolding is_digit_of_char digit_val_def by arith
  then show "c = d" by simp
qed

lemma foldl_decimal: "foldl (\<lambda>acc c. 10 * acc + digit_val c) a ds = a * 10 ^ length ds + decimal ds"
  unfolding decimal_def
proof (induction ds arbitrary: a)
  case Nil show ?case by simp
next
  case (Cons c cs)
  have "foldl (\<lambda>acc c. 10 * acc + digit_val c) (10 * a + digit_val c) cs
          = (10 * a + digit_val c) * 10 ^ length cs + foldl (\<lambda>acc c. 10 * acc + digit_val c) 0 cs"
    by (rule Cons.IH)
  moreover have "foldl (\<lambda>acc c. 10 * acc + digit_val c) (digit_val c) cs
          = digit_val c * 10 ^ length cs + foldl (\<lambda>acc c. 10 * acc + digit_val c) 0 cs"
    by (rule Cons.IH)
  ultimately show ?case by (simp add: algebra_simps)
qed

lemma decimal_Nil: "decimal [] = 0"
  by (simp add: decimal_def)

lemma decimal_Cons: "decimal (c # cs) = digit_val c * 10 ^ length cs + decimal cs"
  using foldl_decimal [of "digit_val c" cs] by (simp add: decimal_def)

lemma decimal_bound: "list_all is_digit ds \<Longrightarrow> decimal ds < 10 ^ length ds"
proof (induction ds)
  case Nil show ?case by (simp add: decimal_Nil)
next
  case (Cons c cs)
  then have "digit_val c \<le> 9" and "decimal cs < 10 ^ length cs"
    using digit_val_less [of c] by auto
  then have "digit_val c * 10 ^ length cs + decimal cs < 9 * 10 ^ length cs + 10 ^ length cs"
    by (meson add_le_less_mono mult_le_mono1)
  then show ?case by (simp add: decimal_Cons)
qed

lemma decimal_less:
  "length a = length b \<Longrightarrow> list_all is_digit a \<Longrightarrow> list_all is_digit b \<Longrightarrow> a < b
     \<Longrightarrow> decimal a < decimal b"
proof (induction a b rule: list_induct2)
  case Nil then show ?case by simp
next
  case (Cons x xs y ys)
  from Cons.prems have dx: "is_digit x" and dy: "is_digit y"
    and dxs: "list_all is_digit xs" and dys: "list_all is_digit ys" by auto
  from Cons.prems(3) consider "x < y" | "x = y" "xs < ys" by auto
  then show ?case
  proof cases
    case 1
    then have "digit_val x + 1 \<le> digit_val y" using digit_val_mono [OF dx dy] by simp
    then have "(digit_val x + 1) * 10 ^ length ys \<le> digit_val y * 10 ^ length ys"
      by (rule mult_le_mono1)
    moreover have "decimal xs < 10 ^ length ys"
      using decimal_bound [OF dxs] Cons.hyps by simp
    ultimately show ?thesis using Cons.hyps by (simp add: decimal_Cons algebra_simps)
  next
    case 2
    then show ?thesis using Cons.IH dxs dys Cons.hyps by (simp add: decimal_Cons)
  qed
qed

lemma decimal_inj:
  "length a = length b \<Longrightarrow> list_all is_digit a \<Longrightarrow> list_all is_digit b
     \<Longrightarrow> decimal a = decimal b \<Longrightarrow> a = b"
  using decimal_less [of a b] decimal_less [of b a]
  by (metis less_irrefl linorder_less_linear)

lemma take_le_take: "(xs :: 'a::linorder list) \<le> ys \<Longrightarrow> take n xs \<le> take n ys"
proof (induction n arbitrary: xs ys)
  case 0 show ?case by simp
next
  case (Suc n)
  show ?case
  proof (cases xs)
    case Nil then show ?thesis by simp
  next
    case (Cons x xs')
    note cx = this
    show ?thesis
    proof (cases ys)
      case Nil with cx Suc.prems show ?thesis by simp
    next
      case (Cons y ys')
      with cx Suc.prems Suc.IH [of xs' ys'] show ?thesis by auto
    qed
  qed
qed

subsection \<open>The discovery loop\<close>

lemma FindStringSubmatch_Some:
  assumes "FindStringSubmatch name = Some (m1, m2)"
  shows "m1 = take 14 name" and "length m1 = 14" and "list_all is_digit m1"
  using assms by (auto simp: FindStringSubmatch_def Let_def split: if_splits)

lemma not_digit_sign: "\<not> is_digit CHR ''+''" "\<not> is_digit CHR ''-''"
  by (simp_all add: is_digit_def less_eq_char_def)

lemma Atoi_digits14:
  assumes "length ds = 14" and "list_all is_digit ds"
  shows "Atoi ds = Inr (int (decimal ds))"
proof -
  from assms obtain c cs where ds: "ds = c # cs" by (cases ds) auto
  with assms have "is_digit c" by simp
  then have c: "c \<noteq> CHR ''+''" "c \<noteq> CHR ''-''" using not_digit_sign by auto
  have "decimal ds < 10 ^ 14" using decimal_bound [OF assms(2)] assms(1) by simp
  then have "int (decimal ds) < 2 ^ 63" by simp
  then show ?thesis using c assms(2) unfolding ds
    by (simp add: Atoi_def Let_def)
qed

lemma Atoi_match:
  "FindStringSubmatch name = Some (m1, m2) \<Longrightarrow> Atoi m1 = Inr (idOf name)"
  using FindStringSubmatch_Some [of name m1 m2] Atoi_digits14 [of m1]
  by (simp add: idOf_def)

lemma migrationNames_Cons:
  "migrationNames (e # es) =
     (if isMigrationFile e then Name e # migrationNames es else migrationNames es)"
  by (simp add: migrationNames_def)

lemma seen_inv_empty: "seen_inv Map.empty []"
  by (simp add: seen_inv_def)

lemma seen_inv_None: "seen_inv seenIDs ps \<Longrightarrow> seenIDs i = None \<longleftrightarrow> i \<notin> idOf ` set ps"
  unfolding seen_inv_def by (metis image_iff not_Some_eq)

lemma seen_inv_upd:
  assumes "seen_inv seenIDs ps" and "seenIDs (idOf n) = None"
  shows "seen_inv (seenIDs(idOf n \<mapsto> n)) (ps @ [n])"
proof -
  have "\<And>m. m \<in> set ps \<Longrightarrow> idOf m \<noteq> idOf n"
    using assms unfolding seen_inv_def by (metis option.distinct(1))
  then show ?thesis using assms(1) unfolding seen_inv_def by auto
qed

lemma scanEntries_ok:
  assumes "seen_inv seenIDs ps" and "distinct (map idOf (ps @ migrationNames es))"
  shows "fst (scanEntries es scripts seenIDs lg) = Inr (scripts @ map scriptOf (migrationNames es))"
  using assms
proof (induction es arbitrary: scripts seenIDs ps lg)
  case Nil
  show ?case by (simp add: migrationNames_def)
next
  case (Cons e es)
  show ?case
  proof (cases "isMigrationFile e")
    case False
    then have "migrationNames (e # es) = migrationNames es" by (simp add: migrationNames_Cons)
    moreover from False have "IsDir e \<or> FindStringSubmatch (Name e) = None"
      unfolding isMigrationFile_def by blast
    ultimately show ?thesis using Cons.prems Cons.IH [of seenIDs ps] by auto
  next
    case True
    then obtain m1 m2 where m: "FindStringSubmatch (Name e) = Some (m1, m2)" and nd: "\<not> IsDir e"
      by (auto simp: isMigrationFile_def)
    have names: "migrationNames (e # es) = Name e # migrationNames es"
      using True by (simp add: migrationNames_Cons)
    from Cons.prems(2) have fresh: "idOf (Name e) \<notin> idOf ` set ps"
      and d': "distinct (map idOf ((ps @ [Name e]) @ migrationNames es))"
      by (auto simp: names)
    have none: "seenIDs (idOf (Name e)) = None"
      using seen_inv_None [OF Cons.prems(1)] fresh by simp
    have inv': "seen_inv (seenIDs(idOf (Name e) \<mapsto> Name e)) (ps @ [Name e])"
      by (rule seen_inv_upd [OF Cons.prems(1) none])
    have so: "scriptOf (Name e) = \<lparr>ID = idOf (Name e), Comment = m2, Path = Name e\<rparr>"
      by (simp add: scriptOf_def commentOf_def m)
    have step: "scanEntries (e # es) scripts seenIDs lg
                  = scanEntries es (scripts @ [scriptOf (Name e)])
                      (seenIDs(idOf (Name e) \<mapsto> Name e)) lg"
      using nd m none by (simp add: Atoi_match [OF m] so)
    show ?thesis
      unfolding step Cons.IH [OF inv' d'] names by simp
  qed
qed

lemma scanEntries_dup:
  assumes "seen_inv seenIDs ps" and "distinct (map idOf ps)"
    and "\<not> distinct (map idOf (ps @ migrationNames es))"
  shows "\<exists>a b xs ys zs. fst (scanEntries es scripts seenIDs lg) = Inl (duplicateError (idOf a) a b)
           \<and> ps @ migrationNames es = xs @ a # ys @ b # zs \<and> idOf a = idOf b"
  using assms
proof (induction es arbitrary: scripts seenIDs ps lg)
  case Nil
  then show ?case by (simp add: migrationNames_def)
next
  case (Cons e es)
  show ?case
  proof (cases "isMigrationFile e")
    case False
    then have "migrationNames (e # es) = migrationNames es" by (simp add: migrationNames_Cons)
    moreover from False have "IsDir e \<or> FindStringSubmatch (Name e) = None"
      unfolding isMigrationFile_def by blast
    ultimately show ?thesis using Cons.prems Cons.IH [of seenIDs ps] by auto
  next
    case True
    then obtain m1 m2 where m: "FindStringSubmatch (Name e) = Some (m1, m2)" and nd: "\<not> IsDir e"
      by (auto simp: isMigrationFile_def)
    have names: "migrationNames (e # es) = Name e # migrationNames es"
      using True by (simp add: migrationNames_Cons)
    show ?thesis
    proof (cases "seenIDs (idOf (Name e))")
      case (Some existing)
      with Cons.prems(1) have ex: "existing \<in> set ps" and same: "idOf existing = idOf (Name e)"
        by (auto simp: seen_inv_def)
      from ex obtain xs ys where ps: "ps = xs @ existing # ys" by (auto dest: split_list)
      have "fst (scanEntries (e # es) scripts seenIDs lg)
              = Inl (duplicateError (idOf existing) existing (Name e))"
        using nd m Some by (simp add: Atoi_match [OF m] duplicateError_def same)
      moreover have "ps @ migrationNames (e # es) = xs @ existing # ys @ Name e # migrationNames es"
        by (simp add: ps names)
      ultimately show ?thesis using same by blast
    next
      case None
      have inv': "seen_inv (seenIDs(idOf (Name e) \<mapsto> Name e)) (ps @ [Name e])"
        by (rule seen_inv_upd [OF Cons.prems(1) None])
      have fresh: "idOf (Name e) \<notin> idOf ` set ps"
        using seen_inv_None [OF Cons.prems(1)] None by simp
      then have d1: "distinct (map idOf (ps @ [Name e]))" using Cons.prems(2) by simp
      have d2: "\<not> distinct (map idOf ((ps @ [Name e]) @ migrationNames es))"
        using Cons.prems(3) by (simp add: names)
      have step: "scanEntries (e # es) scripts seenIDs lg
                    = scanEntries es (scripts @ [\<lparr>ID = idOf (Name e), Comment = m2, Path = Name e\<rparr>])
                        (seenIDs(idOf (Name e) \<mapsto> Name e)) lg"
        using nd m None by (simp add: Atoi_match [OF m])
      have app: "ps @ migrationNames (e # es) = (ps @ [Name e]) @ migrationNames es"
        by (simp add: names)
      show ?thesis
        unfolding step app by (rule Cons.IH [OF inv' d1 d2])
    qed
  qed
qed

subsection \<open>Sorting the scripts\<close>

lemma map_insort_key: "map f (insort_key f x xs) = insort (f x) (map f xs)"
  by (induction xs) auto

lemma map_sort_key: "map f (sort_key f xs) = sort (map f xs)"
  by (induction xs) (auto simp: map_insort_key)

lemma migrationNames_match:
  "n \<in> set (migrationNames entries) \<Longrightarrow> \<exists>m2. FindStringSubmatch n = Some (take 14 n, m2)"
proof -
  assume "n \<in> set (migrationNames entries)"
  then obtain m1 m2 where m: "FindStringSubmatch n = Some (m1, m2)"
    by (auto simp: migrationNames_def isMigrationFile_def)
  then show ?thesis using FindStringSubmatch_Some(1) [OF m] by simp
qed

lemma idOf_less:
  assumes "FindStringSubmatch a = Some (take 14 a, ma)" and "FindStringSubmatch b = Some (take 14 b, mb)"
    and "a < b" and "take 14 a \<noteq> take 14 b"
  shows "idOf a < idOf b"
proof -
  have "take 14 a \<le> take 14 b" using assms(3) by (simp add: take_le_take)
  with assms(4) have "take 14 a < take 14 b" by simp
  then have "decimal (take 14 a) < decimal (take 14 b)"
    using FindStringSubmatch_Some(2,3) [OF assms(1)] FindStringSubmatch_Some(2,3) [OF assms(2)]
    by (intro decimal_less) simp_all
  then show ?thesis by (simp add: idOf_def)
qed

lemma idOf_inj:
  assumes "FindStringSubmatch a = Some (take 14 a, ma)" and "FindStringSubmatch b = Some (take 14 b, mb)"
    and "idOf a = idOf b"
  shows "take 14 a = take 14 b"
proof -
  from assms(3) have "decimal (take 14 a) = decimal (take 14 b)" by (simp add: idOf_def)
  then show ?thesis
    using FindStringSubmatch_Some(2,3) [OF assms(1)] FindStringSubmatch_Some(2,3) [OF assms(2)]
    by (intro decimal_inj) simp_all
qed

lemma distinct_idOf:
  assumes "distinct (map (take 14) (migrationNames entries))"
  shows "distinct (map idOf (migrationNames entries))"
proof -
  have "inj_on idOf (set (migrationNames entries))"
  proof (rule inj_onI)
    fix a b assume a: "a \<in> set (migrationNames entries)" and b: "b \<in> set (migrationNames entries)"
      and eq: "idOf a = idOf b"
    from a b obtain ma mb where "FindStringSubmatch a = Some (take 14 a, ma)"
      "FindStringSubmatch b = Some (take 14 b, mb)" using migrationNames_match by blast
    then have "take 14 a = take 14 b" using eq by (rule idOf_inj)
    with assms a b show "a = b" by (simp add: distinct_map inj_on_def)
  qed
  moreover have "distinct (migrationNames entries)" using assms by (simp add: distinct_map)
  ultimately show ?thesis by (simp add: distinct_map)
qed

subsection \<open>Transactions\<close>

lemma ExecContext_keeps:
  "ExecContext stmt c = (res, c') \<Longrightarrow> logged c' = logged c"
  by (auto simp: ExecContext_def split: option.splits prod.splits)

lemma ExecContext_open:
  "ExecContext stmt c = (res, c') \<Longrightarrow> tx c \<noteq> None \<Longrightarrow> db c' = db c \<and> tx c' \<noteq> None"
  by (auto simp: ExecContext_def split: option.splits prod.splits)

lemma ExecScript_on_transaction: "ExecScript (on_transaction stmt) c = ExecContext stmt c"
  by (cases c) (auto simp: ExecScript_def on_transaction_def ExecContext_def
      split: option.splits prod.splits)

lemma ExecScript_keeps:
  "ExecScript scr c = (res, c') \<Longrightarrow> logged c' = logged c"
  by (auto simp: ExecScript_def split: prod.splits)

lemma Commit_keeps_log: "Commit eng c = (res, c') \<Longrightarrow> logged c' = logged c"
  by (auto simp: Commit_def split: option.splits)

lemma Commit_failed: "Commit eng c = (Some err, c') \<Longrightarrow> db c' = db c"
  by (auto simp: Commit_def split: option.splits)

lemma ExecScript_confined:
  assumes "confined eng sqlBytes (db c)" and "tx c = Some (db c)"
    and "ExecScript (exec_sql eng sqlBytes) c = (res, c1)"
  shows "db c1 = db c" and "res = Inr n \<Longrightarrow> tx c1 \<noteq> None"
  using assms
  by (auto simp: confined_def ExecScript_def split: prod.splits sum.splits)

lemma applyMigration_tx_failed:
  assumes "applyMigration_tx eng sqlBytes s ts c = (Some err, c')"
    and "tx c = Some (db c)" and "confined eng sqlBytes (db c)"
  shows "db c' = db c"
proof -
  obtain res c1 where e: "ExecScript (exec_sql eng sqlBytes) c = (res, c1)" by force
  note c1 = ExecScript_confined [OF assms(3,2) e]
  show ?thesis
  proof (cases res)
    case (Inl x)
    then show ?thesis using assms(1) e c1(1) by (simp add: applyMigration_tx_def)
  next
    case (Inr n)
    then have o1: "tx c1 \<noteq> None" using c1(2) by simp
    obtain r2 c2 where i: "ExecContext (insert_migration (ID s) (Comment s) (Path s) ts) c1 = (r2, c2)"
      by force
    note c2 = ExecContext_open [OF i o1]
    obtain r3 c3 where u: "ExecContext (update_config ''schema.version'' (Itoa (ID s)) ts) c2 = (r3, c3)"
      by force
    note c3 = ExecContext_open [OF u] c2
    show ?thesis
      using assms(1) e Inr i u c1(1) c2 c3
      by (auto simp: applyMigration_tx_def split: sum.splits if_splits dest!: Commit_failed)
  qed
qed

lemma applyMigration_tx_log:
  assumes "applyMigration_tx eng sqlBytes s ts c = (res, c')"
  shows "logged c' = logged c"
  using assms unfolding applyMigration_tx_def
  by (auto split: prod.splits sum.splits if_splits
      dest!: ExecContext_keeps ExecScript_keeps Commit_keeps_log)

lemma applyMigration_failed:
  assumes "tx c = None" and "applyMigration eng fsys s now c = (Some err, c')"
  shows "tx c' = None" and "logged c' = logged c"
    and "(\<And>sqlBytes. ReadFile fsys (Path s) = Inr sqlBytes \<Longrightarrow> confined eng sqlBytes (db c))
           \<Longrightarrow> db c' = db c"
proof -
  show "tx c' = None" and "logged c' = logged c"
    using assms unfolding applyMigration_def
    by (auto simp: Rollback_def BeginTx_def split: prod.splits sum.splits option.splits
        dest: applyMigration_tx_log)
  assume conf: "\<And>sqlBytes. ReadFile fsys (Path s) = Inr sqlBytes \<Longrightarrow> confined eng sqlBytes (db c)"
  show "db c' = db c"
  proof (cases "ReadFile fsys (Path s)")
    case (Inl x)
    then show ?thesis using assms(2) by (simp add: applyMigration_def)
  next
    case (Inr sqlBytes)
    show ?thesis
    proof (cases "begin_error eng (db c)")
      case (Some x)
      then show ?thesis using assms(2) Inr by (simp add: applyMigration_def BeginTx_def)
    next
      case None
      let ?c0 = "c\<lparr>tx := Some (db c)\<rparr>"
      obtain r c1 where t: "applyMigration_tx eng sqlBytes s now ?c0 = (r, c1)" by force
      with assms(2) Inr None have r: "r = Some err" and c': "c' = Rollback c1"
        by (simp_all add: applyMigration_def BeginTx_def)
      have "db c1 = db ?c0"
        using applyMigration_tx_failed [OF t [unfolded r]] conf [OF Inr] by simp
      then show ?thesis using c' by (simp add: Rollback_def)
    qed
  qed
qed

lemma applyMigration_tx_None:
  assumes "tx c = None" and "applyMigration eng fsys s now c = (res, c')"
  shows "tx c' = None" and "logged c' = logged c"
  using assms unfolding applyMigration_def
  by (auto simp: Rollback_def BeginTx_def split: prod.splits sum.splits option.splits
      dest: applyMigration_tx_log)

lemma applyPending_fail_fast:
  assumes "tx c = None"
    and "applyPending eng fsys now appliedPaths scripts c = (Some err, c')"
  shows "\<exists>pre s post c0 e.
           scripts = pre @ s # post \<and> \<not> appliedPaths (Path s)
           \<and> applyPending eng fsys now appliedPaths pre c = (None, c0)
           \<and> applyMigration eng fsys s now
                 (logTo Debug ''applying migration'' [(''path'', Path s)] c0) = (Some e, c')
           \<and> err = ''apply '' @ Path s @ '': '' @ e
           \<and> tx c0 = None \<and> tx c' = None
           \<and> logged c' = logged c0 @ [(Debug, ''applying migration'', [(''path'', Path s)])]"
  using assms
proof (induction scripts arbitrary: c)
  case Nil
  then show ?case by simp
next
  case (Cons s ss)
  show ?case
  proof (cases "appliedPaths (Path s)")
    case True
    with Cons.prems have "applyPending eng fsys now appliedPaths ss c = (Some err, c')" by simp
    from Cons.IH [OF Cons.prems(1) this] obtain pre t post c0 e where
      *: "ss = pre @ t # post" "\<not> appliedPaths (Path t)"
         "applyPending eng fsys now appliedPaths pre c = (None, c0)"
         "applyMigration eng fsys t now
                 (logTo Debug ''applying migration'' [(''path'', Path t)] c0) = (Some e, c')"
         "err = ''apply '' @ Path t @ '': '' @ e"
         "tx c0 = None" "tx c' = None"
         "logged c' = logged c0 @ [(Debug, ''applying migration'', [(''path'', Path t)])]"
      by blast
    have "s # ss = (s # pre) @ t # post" using *(1) by simp
    moreover have "applyPending eng fsys now appliedPaths (s # pre) c = (None, c0)"
      using True *(3) by simp
    ultimately show ?thesis using *(2,4-8) by blast
  next
    case False
    let ?c1 = "logTo Debug ''applying migration'' [(''path'', Path s)] c"
    have t1: "tx ?c1 = None" using Cons.prems(1) by (simp add: logTo_def)
    obtain r c2 where am: "applyMigration eng fsys s now ?c1 = (r, c2)" by force
    show ?thesis
    proof (cases r)
      case (Some e)
      with am False Cons.prems(2) have eq: "err = ''apply '' @ Path s @ '': '' @ e" "c' = c2"
        by simp_all
      have "tx c2 = None" "logged c2 = logged ?c1"
        using applyMigration_failed(1,2) [OF t1 am [unfolded Some]] by simp_all
      then have "tx c' = None"
        "logged c' = logged c @ [(Debug, ''applying migration'', [(''path'', Path s)])]"
        by (simp_all add: eq logTo_def)
      moreover have "s # ss = [] @ s # ss" by simp
      moreover have "applyPending eng fsys now appliedPaths [] c = (None, c)" by simp
      ultimately show ?thesis using False am Some eq Cons.prems(1) by blast
    next
      case None
      with am False Cons.prems(2)
      have rest: "applyPending eng fsys now appliedPaths ss c2 = (Some err, c')" by simp
      have t2: "tx c2 = None" using applyMigration_tx_None(1) [OF t1 am] .
      from Cons.IH [OF t2 rest] obtain pre t post c0 e where
        *: "ss = pre @ t # post" "\<not> appliedPaths (Path t)"
           "applyPending eng fsys now appliedPaths pre c2 = (None, c0)"
           "applyMigration eng fsys t now
                   (logTo Debug ''applying migration'' [(''path'', Path t)] c0) = (Some e, c')"
           "err = ''apply '' @ Path t @ '': '' @ e"
           "tx c0 = None" "tx c' = None"
           "logged c' = logged c0 @ [(Debug, ''applying migration'', [(''path'', Path t)])]"
        by blast
      have "s # ss = (s # pre) @ t # post" using *(1) by simp
      moreover have "applyPending eng fsys now appliedPaths (s # pre) c = (None, c0)"
        using False am None *(3) by simp
      ultimately show ?thesis using *(2,4-8) by blast
    qed
  qed
qed

subsection \<open>The log of discovery\<close>

lemma scanEntries_log:
  "\<exists>ext. snd (scanEntries es scripts seenIDs lg) = lg @ ext
         \<and> (\<forall>e \<in> set ext. fst (snd e) = ''skipping non-migration file'')"
proof (induction es arbitrary: scripts seenIDs lg)
  case Nil
  show ?case by simp
next
  case (Cons e es)
  show ?case
  proof (cases "IsDir e")
    case True
    then show ?thesis using Cons.IH [of scripts seenIDs lg] by simp
  next
    case False
    note nd = this
    show ?thesis
    proof (cases "FindStringSubmatch (Name e)")
      case None
      let ?x = "(Debug, ''skipping non-migration file'', [(''name'', Name e)])"
      from Cons.IH [of scripts seenIDs "lg @ [?x]"] obtain ext where
        "snd (scanEntries es scripts seenIDs (lg @ [?x])) = (lg @ [?x]) @ ext"
        "\<forall>e \<in> set ext. fst (snd e) = ''skipping non-migration file''" by blast
      then have "snd (scanEntries (e # es) scripts seenIDs lg) = lg @ (?x # ext)"
        "\<forall>e \<in> set (?x # ext). fst (snd e) = ''skipping non-migration file''"
        using nd None by simp_all
      then show ?thesis by blast
    next
      case (Some m)
      obtain m1 m2 where m: "m = (m1, m2)" by (cases m)
      show ?thesis
      proof (cases "Atoi m1")
        case (Inl err)
        then show ?thesis using nd Some m by simp
      next
        case (Inr i)
        show ?thesis
        proof (cases "seenIDs i")
          case None
          then have "scanEntries (e # es) scripts seenIDs lg
                       = scanEntries es (scripts @ [\<lparr>ID = i, Comment = m2, Path = Name e\<rparr>])
                           (seenIDs(i \<mapsto> Name e)) lg"
            using nd Some m Inr by simp
          then show ?thesis
            using Cons.IH [of "scripts @ [\<lparr>ID = i, Comment = m2, Path = Name e\<rparr>]"
                              "seenIDs(i \<mapsto> Name e)" lg]
            by (simp only:)
        next
          case (Some existing)
          then show ?thesis using nd \<open>FindStringSubmatch (Name e) = Some m\<close> m Inr by simp
        qed
      qed
    qed
  qed
qed

lemma scanEntries_fst_log:
  "fst (scanEntries es scripts seenIDs lg) = fst (scanEntries es scripts seenIDs lg')"
  by (induction es arbitrary: scripts seenIDs lg lg')
     (auto split: option.splits sum.splits)

lemma listMigrationFiles_fst_log:
  "fst (listMigrationFiles fsys lg) = fst (listMigrationFiles fsys lg')"
proof (cases "ReadDir fsys")
  case (Inl err)
  then show ?thesis by (simp add: listMigrationFiles_def)
next
  case (Inr entries)
  have "fst (scanEntries entries [] Map.empty lg) = fst (scanEntries entries [] Map.empty lg')"
    by (rule scanEntries_fst_log)
  then show ?thesis using Inr
    by (cases "scanEntries entries [] Map.empty lg"; cases "scanEntries entries [] Map.empty lg'")
       (auto simp: listMigrationFiles_def split: sum.splits)
qed

lemma listMigrationFiles_log:
  "\<exists>ext. snd (listMigrationFiles fsys lg) = lg @ ext
         \<and> (\<forall>e \<in> set ext. fst (snd e) = ''skipping non-migration file'')"
proof (cases "ReadDir fsys")
  case (Inl err)
  then show ?thesis by (simp add: listMigrationFiles_def)
next
  case (Inr entries)
  have "snd (listMigrationFiles fsys lg) = snd (scanEntries entries [] Map.empty lg)"
    using Inr by (cases "scanEntries entries [] Map.empty lg")
                 (auto simp: listMigrationFiles_def split: sum.splits)
  then show ?thesis using scanEntries_log [of entries "[]" Map.empty lg] by simp
qed

subsection \<open>The applied paths\<close>

lemma foldl_appliedPaths:
  "foldl (\<lambda>m a. m(Path a := True)) m0 applied p = (m0 p \<or> p \<in> Path ` set applied)"
  by (induction applied arbitrary: m0) auto

lemma mkAppliedPaths_iff: "mkAppliedPaths applied p \<longleftrightarrow> p \<in> Path ` set applied"
  by (simp add: mkAppliedPaths_def foldl_appliedPaths)

lemma applyPending_all_applied:
  "\<forall>s \<in> set scripts. appliedPaths (Path s)
     \<Longrightarrow> applyPending eng fsys now appliedPaths scripts c = (None, c)"
  by (induction scripts) auto

lemma migrate_all_applied:
  assumes "fetchSchemaVersion (db c) = Inr (Some v)"
    and "Migrations cfg = Some fsys"
    and "fst (listMigrationFiles fsys []) = Inr scripts"
    and "fetchAppliedMigrations (db c) = Inr applied"
    and "Path ` set scripts \<subseteq> Path ` set applied"
  shows "\<exists>lg. migrate eng cfg now c = (None, c\<lparr>logged := logged c @ lg\<rparr>)
            \<and> (\<forall>e \<in> set lg. fst (snd e) \<noteq> ''applying migration'')
            \<and> db (snd (migrate eng cfg now c)) = db c
            \<and> fetchSchemaVersion (db (snd (migrate eng cfg now c))) = Inr (Some v)
            \<and> fetchAppliedMigrations (db (snd (migrate eng cfg now c))) = Inr applied"
proof -
  let ?start = "(Debug, ''starting migration'', []) :: log_entry"
  let ?none = "(Debug, ''no user migrations to apply'', []) :: log_entry"
  let ?c0 = "logTo Debug ''starting migration'' [] c"
  obtain r lg1 where lm: "listMigrationFiles fsys (logged ?c0) = (r, lg1)" by force
  have "r = Inr scripts"
    using listMigrationFiles_fst_log [of fsys "logged ?c0" "[]"] lm assms(3) by simp
  note lm = lm [unfolded this]
  from listMigrationFiles_log [of fsys "logged ?c0"] lm obtain ext where
    ext: "lg1 = logged ?c0 @ ext" "\<forall>e \<in> set ext. fst (snd e) = ''skipping non-migration file''"
    by auto
  have lg1: "lg1 = logged c @ ?start # ext" using ext(1) by (simp add: logTo_def)
  have all: "\<forall>s \<in> set scripts. mkAppliedPaths applied (Path s)"
    using assms(5) by (auto simp: mkAppliedPaths_iff)
  let ?lg = "?start # ext @ (if scripts = [] then [?none] else [])"
  have "migrate eng cfg now c = (None, c\<lparr>logged := logged c @ ?lg\<rparr>)"
  proof (cases "scripts = []")
    case True
    then show ?thesis
      using assms(1,2) lm lg1 by (simp add: migrate_def Let_def logTo_def)
  next
    case False
    then show ?thesis
      using assms(1,2,4) lm lg1 applyPending_all_applied [OF all]
      by (simp add: migrate_def Let_def logTo_def)
  qed
  moreover have "\<forall>e \<in> set ?lg. fst (snd e) \<noteq> ''applying migration''"
    using ext(2) by auto
  ultimately show ?thesis using assms(1,4) by (intro exI [of _ ?lg]) simp
qed

subsection \<open>The failures of a script\<close>

lemma applyMigration_failed_same:
  assumes "tx c = None" and "applyMigration eng fsys s now c = (Some err, c')"
    and "\<And>sqlBytes. ReadFile fsys (Path s) = Inr sqlBytes \<Longrightarrow> confined eng sqlBytes (db c)"
  shows "c' = c"
  using applyMigration_failed [OF assms(1,2)] assms(1,3) by simp

lemma applyMigration_exec_fails:
  assumes "tx c = None" and "ReadFile fsys (Path s) = Inr sqlBytes" and "begin_error eng (db c) = None"
    and "exec_sql eng sqlBytes (db c, Some (db c)) = (Inl x, (db c, t1))"
  shows "applyMigration eng fsys s now c = (Some (''exec: '' @ x), c)"
  using assms
  by (simp add: applyMigration_def applyMigration_tx_def BeginTx_def ExecScript_def Rollback_def)

lemma applyMigration_record_fails:
  assumes "tx c = None" and "ReadFile fsys (Path s) = Inr sqlBytes" and "begin_error eng (db c) = None"
    and "exec_sql eng sqlBytes (db c, Some (db c)) = (Inr n, (db c, Some d1))"
    and "insert_migration (ID s) (Comment s) (Path s) now d1 = (Inl x, d2)"
  shows "applyMigration eng fsys s now c = (Some (''record: '' @ x), c)"
  using assms
  by (simp add: applyMigration_def applyMigration_tx_def BeginTx_def ExecScript_def
      ExecContext_def Rollback_def)

lemma applyMigration_rows_fails:
  assumes "tx c = None" and "ReadFile fsys (Path s) = Inr sqlBytes" and "begin_error eng (db c) = None"
    and "exec_sql eng sqlBytes (db c, Some (db c)) = (Inr n, (db c, Some d1))"
    and "insert_migration (ID s) (Comment s) (Path s) now d1 = (Inr m, d2)"
    and "update_config ''schema.version'' (Itoa (ID s)) now d2 = (Inr rows, d3)"
    and "rows \<noteq> 1"
  shows "applyMigration eng fsys s now c
           = (Some (''schema.version update affected '' @ Itoa (int rows) @ '' rows, expected 1''), c)"
  using assms
  by (simp add: applyMigration_def applyMigration_tx_def BeginTx_def ExecScript_def
      ExecContext_def Rollback_def)

subsection \<open>Missing table and missing row\<close>

lemma no_such_table_config: "isNoSuchTable (Some ''no such table: config'')"
  by (simp add: isNoSuchTable_def Contains_def sublist_code)

lemma no_such_table_migrations: "isNoSuchTable (Some ''no such table: schema_migrations'')"
  by (simp add: isNoSuchTable_def Contains_def sublist_code)

lemma no_rows_not_no_such_table: "\<not> isNoSuchTable (Some ''sql: no rows in result set'')"
  by (simp add: isNoSuchTable_def Contains_def sublist_code)

subsection \<open>Runs that execute no script\<close>

lemma Commit_exec_sql: "Commit (eng\<lparr>exec_sql := f\<rparr>) c = Commit eng c"
  by (simp add: Commit_def split: option.splits)

lemma applySchemaInit_tx_exec_sql:
  "applySchemaInit_tx (eng\<lparr>exec_sql := f\<rparr>) cfg ts c = applySchemaInit_tx eng cfg ts c"
  by (auto simp: applySchemaInit_tx_def Commit_exec_sql split: prod.splits sum.splits)

lemma applySchemaInit_exec_sql:
  "applySchemaInit (eng\<lparr>exec_sql := f\<rparr>) cfg ts c = applySchemaInit eng cfg ts c"
  by (auto simp: applySchemaInit_def applySchemaInit_tx_exec_sql BeginTx_def
      split: prod.splits sum.splits option.splits)

lemma migrate_list_error:
  assumes "Migrations cfg = Some fsys" and "\<And>lg. fst (listMigrationFiles fsys lg) = Inl msg"
  shows "migrate eng cfg now c =
     (let c0 = logTo Debug ''starting migration'' [] c in
      case fetchSchemaVersion (db c) of
        Inl err \<Rightarrow> (Some err, c0)
      | Inr None \<Rightarrow>
          (case applySchemaInit eng cfg now (logTo Debug ''initializing schema'' [] c0) of
             (Some err, c1) \<Rightarrow> (Some (''init schema: '' @ err), c1)
           | (None, c1) \<Rightarrow> (Some (''list migrations: '' @ msg),
                              c1\<lparr>logged := snd (listMigrationFiles fsys (logged c1))\<rparr>))
      | Inr (Some v) \<Rightarrow> (Some (''list migrations: '' @ msg),
                           c0\<lparr>logged := snd (listMigrationFiles fsys (logged c0))\<rparr>))"
proof -
  let ?c0 = "logTo Debug ''starting migration'' [] c"
  have lm: "\<exists>lg1. listMigrationFiles fsys lg = (Inl msg, lg1)" for lg
    using assms(2) [of lg] by (metis prod.collapse)
  have dbc: "db ?c0 = db c" by (simp add: logTo_def)
  show ?thesis
  proof (cases "fetchSchemaVersion (db c)")
    case (Inl err)
    then show ?thesis by (simp add: migrate_def Let_def dbc)
  next
    case (Inr version)
    show ?thesis
    proof (cases version)
      case None
      obtain ierr c1 where init:
        "applySchemaInit eng cfg now (logTo Debug ''initializing schema'' [] ?c0) = (ierr, c1)"
        by force
      show ?thesis
      proof (cases ierr)
        case None
        from lm [of "logged c1"] obtain lg1 where
          "listMigrationFiles fsys (logged c1) = (Inl msg, lg1)" ..
        then show ?thesis
          unfolding migrate_def Let_def dbc Inr \<open>version = None\<close>
          using init None assms(1) by simp
      next
        case (Some err)
        show ?thesis
          unfolding migrate_def Let_def dbc Inr \<open>version = None\<close>
          using init Some by simp
      qed
    next
      case (Some v)
      from lm [of "logged ?c0"] obtain lg1 where
        "listMigrationFiles fsys (logged ?c0) = (Inl msg, lg1)" ..
      then show ?thesis
        unfolding migrate_def Let_def dbc Inr Some
        using assms(1) by simp
    qed
  qed
qed

subsection \<open>Initialization of the schema\<close>

lemma Atoi_zero: "Atoi ''0'' = Inr 0"
  by (simp add: Atoi_def decimal_def digit_val_def is_digit_def less_eq_char_def)

lemma fetchSchemaVersion_no_table:
  "config_table d = None \<Longrightarrow> fetchSchemaVersion d = Inr None"
  by (simp add: fetchSchemaVersion_def select_schema_version_def no_such_table_config)

lemma fetchSchemaVersion_no_row:
  assumes "config_table d = Some rows" and "\<forall>r \<in> set rows. cfg_key r \<noteq> ''schema.version''"
  shows "fetchSchemaVersion d = Inl ''fetch schema.version: sql: no rows in result set''"
proof -
  have "filter (\<lambda>r. cfg_key r = ''schema.version'') rows = []"
    using assms(2) by (simp add: filter_empty_conv)
  then show ?thesis
    using assms(1) no_rows_not_no_such_table
    by (simp add: fetchSchemaVersion_def select_schema_version_def)
qed

lemma applySchemaInit_tx_log:
  "applySchemaInit_tx eng cfg ts c = (res, c') \<Longrightarrow> logged c' = logged c"
  unfolding applySchemaInit_tx_def
  by (auto split: prod.splits sum.splits if_splits dest!: ExecContext_keeps Commit_keeps_log)

lemma applySchemaInit_log:
  "applySchemaInit eng cfg ts c = (res, c') \<Longrightarrow> logged c' = logged c"
  unfolding applySchemaInit_def
  by (auto simp: Rollback_def BeginTx_def split: prod.splits sum.splits option.splits
      dest: applySchemaInit_tx_log)

lemma applyMigration_log:
  "applyMigration eng fsys s now c = (res, c') \<Longrightarrow> logged c' = logged c"
  unfolding applyMigration_def
  by (auto simp: Rollback_def BeginTx_def split: prod.splits sum.splits option.splits
      dest: applyMigration_tx_log)

lemma applyPending_log:
  "\<exists>ext. logged (snd (applyPending eng fsys now appliedPaths scripts c)) = logged c @ ext"
proof (induction scripts arbitrary: c)
  case Nil
  show ?case by simp
next
  case (Cons s ss)
  show ?case
  proof (cases "appliedPaths (Path s)")
    case True
    then show ?thesis using Cons.IH [of c] by simp
  next
    case False
    let ?c1 = "logTo Debug ''applying migration'' [(''path'', Path s)] c"
    obtain r c2 where am: "applyMigration eng fsys s now ?c1 = (r, c2)" by force
    have l2: "logged c2 = logged c @ [(Debug, ''applying migration'', [(''path'', Path s)])]"
      using applyMigration_log [OF am] by (simp add: logTo_def)
    show ?thesis
    proof (cases r)
      case None
      from Cons.IH [of c2] obtain ext where
        "logged (snd (applyPending eng fsys now appliedPaths ss c2)) = logged c2 @ ext" ..
      then show ?thesis using False am None l2 by simp
    next
      case (Some e)
      then show ?thesis using False am l2 by simp
    qed
  qed
qed

lemma migrate_log_init:
  assumes "config_table (db c) = None"
  shows "\<exists>rest. logged (snd (migrate eng cfg now c))
           = logged c @ [(Debug, ''starting migration'', []), (Debug, ''initializing schema'', [])]
               @ rest"
proof -
  let ?c0 = "logTo Debug ''starting migration'' [] c"
  let ?ci = "logTo Debug ''initializing schema'' [] ?c0"
  let ?two = "[(Debug, ''starting migration'', []), (Debug, ''initializing schema'', [])] :: log_entry list"
  have v: "fetchSchemaVersion (db ?c0) = Inr None"
    using assms by (simp add: fetchSchemaVersion_no_table logTo_def)
  obtain ierr c1 where init: "applySchemaInit eng cfg now ?ci = (ierr, c1)" by force
  have l1: "logged c1 = logged c @ ?two"
    using applySchemaInit_log [OF init] by (simp add: logTo_def)
  show ?thesis
  proof (cases ierr)
    case (Some err)
    then show ?thesis using v init l1 by (simp add: migrate_def Let_def)
  next
    case None
    note ok = this
    show ?thesis
    proof (cases "Migrations cfg")
      case None
      then show ?thesis using v init ok l1 by (simp add: migrate_def Let_def)
    next
      case (Some fsys)
      obtain r lg1 where lm: "listMigrationFiles fsys (logged c1) = (r, lg1)" by force
      from listMigrationFiles_log [of fsys "logged c1"] lm obtain ext where
        lg1: "lg1 = logged c @ ?two @ ext" by (auto simp: l1)
      show ?thesis
      proof (cases r)
        case (Inl err)
        then show ?thesis using v init ok Some lm lg1 by (simp add: migrate_def Let_def)
      next
        case (Inr scripts)
        show ?thesis
        proof (cases "scripts = []")
          case True
          then show ?thesis using v init ok Some lm lg1 Inr
            by (simp add: migrate_def Let_def logTo_def)
        next
          case False
          show ?thesis
          proof (cases "fetchAppliedMigrations (db c1)")
            case (Inl err)
            then show ?thesis using v init ok Some lm lg1 Inr False
              by (simp add: migrate_def Let_def)
          next
            case (Inr applied)
            from applyPending_log [of eng fsys now "mkAppliedPaths applied" scripts "c1\<lparr>logged := lg1\<rparr>"]
            obtain ext2 where
              "logged (snd (applyPending eng fsys now (mkAppliedPaths applied) scripts
                             (c1\<lparr>logged := lg1\<rparr>))) = lg1 @ ext2" by auto
            then show ?thesis using v init ok Some lm lg1 \<open>r = Inr scripts\<close> False Inr
              by (simp add: migrate_def Let_def)
          qed
        qed
      qed
    qed
  qed
qed

lemma migrate_fresh:
  assumes "config_table (db c) = None" and "schema_migrations_table (db c) = None"
    and "begin_error eng (db c) = None" and "\<forall>d. commit_error eng d = None"
    and "Migrations cfg = None"
  shows "\<exists>c'. migrate eng cfg now c = (None, c')
           \<and> fetchSchemaVersion (db c') = Inr (Some 0)
           \<and> schema_migrations_table (db c')
               = Some [\<lparr>sm_id = 0, sm_comment = ''init'', sm_path = ''schema.sql'',
                        sm_applied_at = now, sm_created_at = now, sm_updated_at = now\<rparr>]"
  using assms
  by (simp add: migrate_def Let_def logTo_def fetchSchemaVersion_no_table applySchemaInit_def
        applySchemaInit_tx_def BeginTx_def ExecContext_def schema_sql_def insert_migration_def
        update_config_def Commit_def Rollback_def seed_config_def fetchSchemaVersion_def
        select_schema_version_def Atoi_zero no_such_table_config)

lemma applySchemaInit_table_exists:
  assumes "schema_migrations_table (db c) \<noteq> None"
  shows "\<exists>err c'. applySchemaInit eng cfg ts c = (Some err, c') \<and> db c' = db c
           \<and> logged c' = logged c"
proof (cases "begin_error eng (db c)")
  case (Some err)
  then show ?thesis by (simp add: applySchemaInit_def BeginTx_def)
next
  case None
  then show ?thesis using assms
    by (auto simp: applySchemaInit_def BeginTx_def applySchemaInit_tx_def ExecContext_def
        schema_sql_def Rollback_def)
qed

lemma fetchSchemaVersion_table:
  assumes "config_table d \<noteq> None"
  shows "fetchSchemaVersion d \<noteq> Inr None"
proof -
  from assms obtain rows where r: "config_table d = Some rows" by auto
  show ?thesis
  proof (cases "filter (\<lambda>r. cfg_key r = ''schema.version'') rows")
    case Nil
    then show ?thesis using r no_rows_not_no_such_table
      by (simp add: fetchSchemaVersion_def select_schema_version_def)
  next
    case (Cons x xs)
    then show ?thesis using r
      by (simp add: fetchSchemaVersion_def select_schema_version_def split: sum.splits)
  qed
qed

lemma migrate_not_fresh:
  assumes "config_table (db c) \<noteq> None \<or> schema_migrations_table (db c) \<noteq> None"
    and "Migrations cfg = Some fsys"
    and "fst (listMigrationFiles fsys []) = Inr scripts"
    and "fetchAppliedMigrations (db c) = Inr applied"
    and "Path ` set scripts \<subseteq> Path ` set applied"
  shows "db (snd (migrate eng cfg now c)) = db c
       \<and> (\<exists>lg. logged (snd (migrate eng cfg now c)) = logged c @ lg
              \<and> (\<forall>e \<in> set lg. fst (snd e) \<noteq> ''applying migration''))"
proof (cases "fetchSchemaVersion (db c)")
  case (Inl err)
  then have "migrate eng cfg now c = (Some err, logTo Debug ''starting migration'' [] c)"
    by (simp add: migrate_def Let_def logTo_def)
  then show ?thesis by (simp add: logTo_def)
next
  case (Inr version)
  show ?thesis
  proof (cases version)
    case (Some v)
    from migrate_all_applied [OF Inr [unfolded Some] assms(2-5), of eng now]
    obtain lg where "migrate eng cfg now c = (None, c\<lparr>logged := logged c @ lg\<rparr>)"
      "\<forall>e \<in> set lg. fst (snd e) \<noteq> ''applying migration''" by blast
    then show ?thesis by auto
  next
    case None
    with Inr have "config_table (db c) = None"
      using fetchSchemaVersion_table [of "db c"] by (cases "config_table (db c)") auto
    with assms(1) have t: "schema_migrations_table (db c) \<noteq> None" by simp
    let ?ci = "logTo Debug ''initializing schema'' [] (logTo Debug ''starting migration'' [] c)"
    have "schema_migrations_table (db ?ci) \<noteq> None" using t by (simp add: logTo_def)
    from applySchemaInit_table_exists [OF this, of eng cfg now]
    obtain err c' where i: "applySchemaInit eng cfg now ?ci = (Some err, c')"
      and d: "db c' = db ?ci" and l: "logged c' = logged ?ci" by blast
    have "migrate eng cfg now c = (Some (''init schema: '' @ err), c')"
      using Inr None i by (simp add: migrate_def Let_def logTo_def)
    moreover have "logged c' = logged c @ [(Debug, ''starting migration'', []),
                                          (Debug, ''initializing schema'', [])]"
      using l by (simp add: logTo_def)
    ultimately show ?thesis using d by (simp add: logTo_def)
  qed
qed

subsection \<open>Defaults and opening\<close>

lemma isMemory_defaults: "isMemory (defaults cfg) = isMemory cfg"
  by (simp add: isMemory_def defaults_def)

lemma defaults_fields:
  "AllowMemoryInProduction (defaults cfg) = AllowMemoryInProduction cfg"
  "Path_cfg (defaults cfg) = Path_cfg cfg"
  "SkipMigrations (defaults cfg) = SkipMigrations cfg"
  "RequiredSchemaVersion (defaults cfg) = RequiredSchemaVersion cfg"
  "Migrations (defaults cfg) = Migrations cfg"
  "AppVersion (defaults cfg) = AppVersion cfg"
  by (simp_all add: defaults_def)

lemma Open_memory_reaches:
  assumes "isMemory cfg" and "\<not> (isProduction w (defaults cfg) \<and> \<not> AllowMemoryInProduction cfg)"
  shows "Open plat cfg now w
           = openAndMigrate plat (defaults cfg) memoryPragmas now
               (logW Info ''DB mode: in-memory'' [] w)"
  using assms by (auto simp: Open_def Let_def isMemory_defaults openMemory_def defaults_fields)

lemma Open_persistent_reaches:
  assumes "\<not> isMemory cfg" and "validatePersistentPath plat w (Path_cfg cfg) = None"
    and "fileExists w (Path_cfg cfg)"
  shows "Open plat cfg now w
           = openAndMigrate plat (defaults cfg) persistentPragmas now
               (logW Info ''DB mode: persistent'' [(''path'', Path_cfg cfg)] w)"
  using assms by (simp add: Open_def Let_def isMemory_defaults openPersistent_def defaults_fields)

subsection \<open>The target of a connection string\<close>

lemma uriPath_plain:
  assumes "CHR ''?'' \<notin> set p" and "CHR ''#'' \<notin> set p" and "CHR ''%'' \<notin> set p"
    and "q = [] \<or> hd q = CHR ''?''"
  shows "uriPath (p @ q) = p"
  using assms
proof (induction p)
  case Nil
  then show ?case by (cases q) auto
next
  case (Cons c cs)
  then have "c \<noteq> CHR ''?''" "c \<noteq> CHR ''#''" "c \<noteq> CHR ''%''" by auto
  moreover have "uriPath (cs @ q) = cs" using Cons by simp
  ultimately show ?case by simp
qed

lemma pragmaParams_head:
  "path \<noteq> '':memory:'' \<Longrightarrow> pragmaParams path 0 ps = [] \<or> hd (pragmaParams path 0 ps) = CHR ''?''"
  by (cases ps) simp_all

lemma uriTarget_plain:
  assumes "plain_path p"
  shows "uriTarget (buildDSN p pragmas) = Inr (FileAt p)"
proof -
  let ?q = "pragmaParams p 0 pragmas"
  from assms have nm: "p \<noteq> '':memory:''" and ne: "p \<noteq> []" and sl: "take 2 p \<noteq> ''//''"
    and ch: "CHR ''?'' \<notin> set p" "CHR ''#'' \<notin> set p" "CHR ''%'' \<notin> set p"
    by (simp_all add: plain_path_def)
  have q: "?q = [] \<or> hd ?q = CHR ''?''" using nm by (rule pragmaParams_head)
  have dsn: "buildDSN p pragmas = ''file:'' @ p @ ?q" using nm by (simp add: buildDSN_def)
  have t: "take 2 (p @ ?q) \<noteq> ''//''"
  proof (cases p)
    case Nil
    with ne show ?thesis by simp
  next
    case (Cons a r)
    show ?thesis
    proof (cases r)
      case Nil
      with Cons q show ?thesis by (cases ?q) auto
    next
      case (Cons b r')
      with \<open>p = a # r\<close> sl show ?thesis by simp
    qed
  qed
  have u: "uriPath (p @ ?q) = p" using ch q by (rule uriPath_plain)
  have f: "uriFile (buildDSN p pragmas) = Inr p"
    unfolding dsn using t u by (simp add: uriFile_def HasPrefix_def Let_def)
  show ?thesis using f ne nm by (simp add: uriTarget_def)
qed

lemma uriTarget_memory: "uriTarget (buildDSN '':memory:'' pragmas) = Inr SharedMemory"
  by (simp add: uriTarget_def uriFile_def buildDSN_def HasPrefix_def)

subsection \<open>Connections\<close>

lemma files_logW: "files (logW l msg attrs w) = files w"
  by (simp add: logW_def)

lemma connect_logW:
  "connect eng dsn (logW l msg attrs w)
     = (case connect eng dsn w of
          Inl e \<Rightarrow> Inl e
        | Inr (d, w1) \<Rightarrow> Inr (d, logW l msg attrs w1))"
  by (auto simp: connect_def logW_def Let_def
      split: sum.splits target.splits option.splits node.splits)

lemma connect_memory:
  assumes "connect eng dsn w = Inr (d, w1)"
  shows "memory w1 = memory w" and "logger w1 = logger w" and "env w1 = env w"
  using assms
  by (auto simp: connect_def Let_def split: sum.splits target.splits option.splits node.splits)


lemma connect_existing:
  assumes "connect eng dsn w = Inr (d, w1)" and "uriTarget dsn = Inr (FileAt name)"
    and "files w name \<noteq> None"
  shows "w1 = w" and "files w name = Some (RegularFile (Some d))"
  using assms
  by (auto simp: connect_def Let_def split: option.splits node.splits)

lemma connect_database_at:
  assumes "connect eng dsn w = Inr (d, w1)" and "database_at w1 dsn = Some d'"
  shows "d' = d"
  using assms
  by (auto simp: connect_def database_at_def Let_def
      split: sum.splits target.splits option.splits node.splits)

subsection \<open>Path validation and Create\<close>






subsection \<open>The loop of Delete\<close>




subsection \<open>Status of an open database\<close>

lemma zeroStatus_uninit: "zeroStatus\<lparr>IsInitialized := False\<rparr> = zeroStatus"
  by (simp add: zeroStatus_def)

lemma getStatus_result:
  assumes "fst (getStatus d cfg lg) = Inr st"
  shows "(fetchSchemaVersion d = Inr None \<longrightarrow> st = zeroStatus)
       \<and> (\<forall>v. fetchSchemaVersion d = Inr (Some v) \<longrightarrow>
             IsInitialized st \<and> SchemaVersion st = v
             \<and> fetchAppliedMigrations d = Inr (Applied st)
             \<and> (Migrations cfg = None \<longrightarrow> Pending st = [])
             \<and> (\<forall>fsys scripts. Migrations cfg = Some fsys
                   \<and> fst (listMigrationFiles fsys []) = Inr scripts \<longrightarrow>
                   Pending st = filter (\<lambda>p. p \<notin> Path ` set (Applied st)) (map Path scripts)))"
proof (intro conjI impI allI)
  assume "fetchSchemaVersion d = Inr None"
  with assms show "st = zeroStatus" by (simp add: getStatus_def zeroStatus_uninit)
next
  fix v
  assume v: "fetchSchemaVersion d = Inr (Some v)"
  from assms v obtain applied where a: "fetchAppliedMigrations d = Inr applied"
    by (cases "fetchAppliedMigrations d") (simp_all add: getStatus_def)
  let ?status = "zeroStatus\<lparr>IsInitialized := True, SchemaVersion := v, Applied := applied\<rparr>"
  have st: "IsInitialized st \<and> SchemaVersion st = v \<and> Applied st = applied
              \<and> (Migrations cfg = None \<longrightarrow> Pending st = [])
              \<and> (\<forall>fsys scripts. Migrations cfg = Some fsys
                   \<and> fst (listMigrationFiles fsys lg) = Inr scripts \<longrightarrow>
                   Pending st = map Path (filter (\<lambda>s. \<not> mkAppliedPaths applied (Path s)) scripts))"
  proof (cases "Migrations cfg")
    case None
    with assms v a show ?thesis by (auto simp: getStatus_def Let_def zeroStatus_def)
  next
    case (Some fsys)
    obtain r lg' where lm: "listMigrationFiles fsys lg = (r, lg')" by force
    show ?thesis
    proof (cases r)
      case (Inl err)
      with assms v a Some lm show ?thesis by (simp add: getStatus_def Let_def)
    next
      case (Inr scripts)
      with assms v a Some lm show ?thesis by (auto simp: getStatus_def Let_def zeroStatus_def)
    qed
  qed
  then show "IsInitialized st" "SchemaVersion st = v" "fetchAppliedMigrations d = Inr (Applied st)"
    using a by simp_all
  show "Pending st = []" if "Migrations cfg = None" using st that by simp
  show "Pending st = filter (\<lambda>p. p \<notin> Path ` set (Applied st)) (map Path scripts)"
    if "Migrations cfg = Some fsys \<and> fst (listMigrationFiles fsys []) = Inr scripts" for fsys scripts
  proof -
    have "fst (listMigrationFiles fsys lg) = Inr scripts"
      using that listMigrationFiles_fst_log [of fsys lg "[]"] by simp
    with st that have "Pending st = map Path (filter (\<lambda>s. \<not> mkAppliedPaths applied (Path s)) scripts)"
      by blast
    also have "\<dots> = filter (\<lambda>p. p \<notin> Path ` set applied) (map Path scripts)"
      by (simp add: filter_map comp_def mkAppliedPaths_iff)
    finally show ?thesis using st by simp
  qed
qed

lemma openPersistent_skip_success:
  assumes "openPersistent plat cfg now w = (Inr h, w')" and "SkipMigrations cfg"
  shows "\<exists>d w1. connect (sql plat) (buildDSN (Path_cfg cfg) persistentPragmas) w = Inr (d, w1)
           \<and> h = buildDSN (Path_cfg cfg) persistentPragmas
           \<and> files w' = files w1 \<and> memory w' = memory w
           \<and> (\<forall>d'. database_at w' h = Some d' \<longrightarrow> d' = d)"
proof -
  let ?p = "Path_cfg cfg"
  let ?dsn = "buildDSN ?p persistentPragmas"
  from assms(1) have v: "validatePersistentPath plat w ?p = None" and e: "fileExists w ?p"
    by (auto simp: openPersistent_def split: option.splits if_splits)
  let ?w0 = "logW Info ''DB mode: persistent'' [(''path'', ?p)] w"
  let ?w1 = "logW Debug ''opening database'' [(''dsn'', ?dsn)] ?w0"
  from assms(1) v e have om: "openAndMigrate plat cfg persistentPragmas now ?w0 = (Inr h, w')"
    by (simp add: openPersistent_def)
  then obtain d w2 where c: "connect (sql plat) ?dsn ?w1 = Inr (d, w2)"
    by (auto simp: openAndMigrate_def Let_def split: sum.splits)
  then obtain w1 where c0: "connect (sql plat) ?dsn w = Inr (d, w1)"
    and w2: "w2 = logW Debug ''opening database'' [(''dsn'', ?dsn)]
                    (logW Info ''DB mode: persistent'' [(''path'', ?p)] w1)"
    by (auto simp: connect_logW split: sum.splits)
  have r: "runMigrations (sql plat) cfg ?dsn now d w2 = (None, d, w2)"
    using assms(2) by (simp add: runMigrations_def)
  from om c r have h: "h = ?dsn" and w': "w' = w2"
    by (auto simp: openAndMigrate_def Let_def split: sum.splits option.splits if_splits)
  have "files w' = files w1" using w' w2 by (simp add: files_logW)
  moreover have "memory w' = memory w"
    using w' w2 connect_memory(1) [OF c0] by (simp add: logW_def)
  moreover have "\<forall>d'. database_at w' h = Some d' \<longrightarrow> d' = d"
    using connect_database_at [OF c] h w' by blast
  ultimately show ?thesis using c0 h by blast
qed

lemma Status_success:
  assumes "Status plat cfg now w = (Inr st, w')" and "\<not> isMemory cfg"
    and "fileExists w (Path_cfg cfg)"
  shows "\<exists>d w1 lg. connect (sql plat) (buildDSN (Path_cfg cfg) persistentPragmas) w = Inr (d, w1)
           \<and> files w' = files w1 \<and> memory w' = memory w
           \<and> fst (getStatus d ((defaults cfg)\<lparr>SkipMigrations := True\<rparr>) lg) = Inr st"
proof -
  let ?cfg = "(defaults cfg)\<lparr>SkipMigrations := True\<rparr>"
  have p: "Path_cfg ?cfg = Path_cfg cfg" by (simp add: defaults_fields)
  have m: "\<not> isMemory ?cfg" using assms(2) by (simp add: isMemory_def defaults_fields)
  obtain r w2 where op: "openPersistent plat ?cfg now w = (r, w2)" by force
  with assms m p obtain h where h: "r = Inr h"
    by (cases r) (auto simp: Status_def Let_def)
  from openPersistent_skip_success [OF op [unfolded h]]
  obtain d w1 where c: "connect (sql plat) (buildDSN (Path_cfg cfg) persistentPragmas) w = Inr (d, w1)"
    and f: "files w2 = files w1" "memory w2 = memory w"
    and da: "\<forall>d'. database_at w2 h = Some d' \<longrightarrow> d' = d"
    by (auto simp: p)
  from assms(1) m assms(3) op h obtain d' where d': "database_at w2 h = Some d'"
    by (cases "database_at w2 h") (auto simp: Status_def Let_def p)
  with da have dd: "d' = d" by blast
  obtain res lg' where g: "getStatus d ?cfg (logger w2) = (res, lg')" by force
  from assms(1) m assms(3) op h d' dd g have "res = Inr st" "w' = w2\<lparr>logger := lg'\<rparr>"
    by (auto simp: Status_def Let_def p)
  then show ?thesis using c f g by (intro exI [of _ d] exI [of _ w1] exI [of _ "logger w2"]) simp
qed

subsection \<open>Evaluation of the examples\<close>

lemma target_app_db: "uriTarget (buildDSN ''/data/app.db'' pragmas) = Inr (FileAt ''/data/app.db'')"
  by (rule uriTarget_plain) (simp add: plain_path_def)

lemma names0: "migrationNames entries0
                 = [''20260101000002_create_posts.sql'', ''20260101000001_create_users.sql'']"
    by (simp add: migrationNames_def entries0_def isMigrationFile_def FindStringSubmatch_def
          is_digit_def less_eq_char_def)

lemma read0: "ReadFile fs0 ''20260101000001_create_users.sql'' = Inr ''-- 20260101000001_create_users.sql''"
  "ReadFile fs0 ''20260101000002_create_posts.sql'' = Inr ''-- 20260101000002_create_posts.sql''"
  by (simp_all add: fs0_def names0)

lemma list0: "fst (listMigrationFiles fs0 []) = Inr scripts_ex"
  by (simp add: listMigrationFiles_def fs0_def entries0_def scripts_ex_def FindStringSubmatch_def
        is_digit_def less_eq_char_def less_char_def Atoi_def decimal_def digit_val_def)

lemma version_done: "fetchSchemaVersion db_done = Inr (Some 20260101000002)"
  by (simp add: db_done_def fetchSchemaVersion_def select_schema_version_def Atoi_def
        decimal_def digit_val_def is_digit_def less_eq_char_def)


section \<open>The properties of the specification\<close>

subsection \<open>A failing script is rolled back and stops the run\<close>

text \<open>
  Claim C1, as stated, fails for a script whose text ends the transaction it runs in. The
  script below creates a table, commits, and then fails on a statement that names a
  missing table. \<open>applyMigration\<close> returns the error of the script, and the table stays
  in the committed database: the rollback that follows finds no transaction.
\<close>

theorem migration_commit_counterexample:
  "tx sess_init = None
   \<and> ReadFile fs_commit (Path script_commit)
       = Inr ''CREATE TABLE a (x INTEGER); COMMIT; INSERT INTO b VALUES (1);''
   \<and> applyMigration eng_commit fs_commit script_commit 7 sess_init
       = (Some ''exec: no such table: b'', sess_init\<lparr>db := db_init\<lparr>user_data := 1\<rparr>\<rparr>)
   \<and> user_data (db sess_init) = 0"
  by (simp add: sess_init_def db_init_def fs_commit_def script_commit_def eng_commit_def
      eng_ex_def applyMigration_def applyMigration_tx_def BeginTx_def ExecScript_def
      Rollback_def)

text \<open>
  Claim C1, amended. A session with no transaction open runs a script \<open>s\<close> whose text is
  confined to its transaction (it does not end the transaction itself). When the script's
  SQL fails, when the insert of its applied record fails, or when the update of
  \<^verbatim>\<open>schema.version\<close> affects a number of rows other than 1, \<open>applyMigration\<close> returns
  the error and the session it started from: the working copy of the transaction is
  dropped, so the committed database (with \<^verbatim>\<open>schema.version\<close> and the rows of
  \<^verbatim>\<open>schema_migrations\<close>) is what it was before the script. The same holds for every
  other way \<open>applyMigration\<close> fails on a confined script. When the loop of \<open>migrate\<close>
  over the scripts returns an error, whatever the scripts do, the scripts before the
  failing one \<open>t\<close> were processed without error, the error is that of \<open>t\<close> (prefixed
  with its path), and the last entry of the log is the attempt at \<open>t\<close>: no later script
  was attempted; and when \<open>t\<close> is confined, the database is the one before \<open>t\<close>.
\<close>

theorem migration_failure_rolls_back:
  assumes "tx c = None"
  shows "(\<forall>sqlBytes. ReadFile fsys (Path s) = Inr sqlBytes \<and> begin_error eng (db c) = None \<longrightarrow>
            (\<forall>x t1. exec_sql eng sqlBytes (db c, Some (db c)) = (Inl x, (db c, t1)) \<longrightarrow>
               applyMigration eng fsys s now c = (Some (''exec: '' @ x), c))
          \<and> (\<forall>n d1 x d2. exec_sql eng sqlBytes (db c, Some (db c)) = (Inr n, (db c, Some d1))
                 \<and> insert_migration (ID s) (Comment s) (Path s) now d1 = (Inl x, d2) \<longrightarrow>
               applyMigration eng fsys s now c = (Some (''record: '' @ x), c))
          \<and> (\<forall>n d1 m d2 rows d3.
                 exec_sql eng sqlBytes (db c, Some (db c)) = (Inr n, (db c, Some d1))
                 \<and> insert_migration (ID s) (Comment s) (Path s) now d1 = (Inr m, d2)
                 \<and> update_config ''schema.version'' (Itoa (ID s)) now d2 = (Inr rows, d3)
                 \<and> rows \<noteq> 1 \<longrightarrow>
               applyMigration eng fsys s now c
                 = (Some (''schema.version update affected '' @ Itoa (int rows)
                            @ '' rows, expected 1''), c)))
       \<and> (\<forall>e c'. applyMigration eng fsys s now c = (Some e, c')
              \<and> (\<forall>sqlBytes. ReadFile fsys (Path s) = Inr sqlBytes \<longrightarrow>
                     confined eng sqlBytes (db c)) \<longrightarrow> c' = c)
       \<and> (\<forall>err c'. applyPending eng fsys now appliedPaths scripts c = (Some err, c') \<longrightarrow>
            (\<exists>pre t post c0 e.
               scripts = pre @ t # post \<and> \<not> appliedPaths (Path t)
               \<and> applyPending eng fsys now appliedPaths pre c = (None, c0)
               \<and> applyMigration eng fsys t now
                     (logTo Debug ''applying migration'' [(''path'', Path t)] c0) = (Some e, c')
               \<and> err = ''apply '' @ Path t @ '': '' @ e
               \<and> tx c' = None
               \<and> logged c' = logged c0 @ [(Debug, ''applying migration'', [(''path'', Path t)])]
               \<and> ((\<forall>sqlBytes. ReadFile fsys (Path t) = Inr sqlBytes \<longrightarrow>
                       confined eng sqlBytes (db c0)) \<longrightarrow> db c' = db c0)))"
proof (intro conjI allI impI)
  fix sqlBytes x t1
  assume "ReadFile fsys (Path s) = Inr sqlBytes \<and> begin_error eng (db c) = None"
    and "exec_sql eng sqlBytes (db c, Some (db c)) = (Inl x, (db c, t1))"
  then show "applyMigration eng fsys s now c = (Some (''exec: '' @ x), c)"
    using applyMigration_exec_fails [OF assms] by blast
next
  fix sqlBytes n d1 x d2
  assume "ReadFile fsys (Path s) = Inr sqlBytes \<and> begin_error eng (db c) = None"
    and "exec_sql eng sqlBytes (db c, Some (db c)) = (Inr n, (db c, Some d1))
           \<and> insert_migration (ID s) (Comment s) (Path s) now d1 = (Inl x, d2)"
  then show "applyMigration eng fsys s now c = (Some (''record: '' @ x), c)"
    using applyMigration_record_fails [OF assms] by blast
next
  fix sqlBytes n d1 m d2 rows d3
  assume "ReadFile fsys (Path s) = Inr sqlBytes \<and> begin_error eng (db c) = None"
    and "exec_sql eng sqlBytes (db c, Some (db c)) = (Inr n, (db c, Some d1))
           \<and> insert_migration (ID s) (Comment s) (Path s) now d1 = (Inr m, d2)
           \<and> update_config ''schema.version'' (Itoa (ID s)) now d2 = (Inr rows, d3)
           \<and> rows \<noteq> 1"
  then show "applyMigration eng fsys s now c
               = (Some (''schema.version update affected '' @ Itoa (int rows)
                          @ '' rows, expected 1''), c)"
    using applyMigration_rows_fails [OF assms] by blast
next
  fix e c'
  assume "applyMigration eng fsys s now c = (Some e, c')
            \<and> (\<forall>sqlBytes. ReadFile fsys (Path s) = Inr sqlBytes \<longrightarrow> confined eng sqlBytes (db c))"
  then show "c' = c" using applyMigration_failed_same [OF assms] by blast
next
  fix err c'
  assume "applyPending eng fsys now appliedPaths scripts c = (Some err, c')"
  from applyPending_fail_fast [OF assms this] obtain pre t post c0 e where
    *: "scripts = pre @ t # post" "\<not> appliedPaths (Path t)"
       "applyPending eng fsys now appliedPaths pre c = (None, c0)"
       "applyMigration eng fsys t now
             (logTo Debug ''applying migration'' [(''path'', Path t)] c0) = (Some e, c')"
       "err = ''apply '' @ Path t @ '': '' @ e"
       "tx c0 = None" "tx c' = None"
       "logged c' = logged c0 @ [(Debug, ''applying migration'', [(''path'', Path t)])]"
    by blast
  let ?c1 = "logTo Debug ''applying migration'' [(''path'', Path t)] c0"
  have t1: "tx ?c1 = None" and d1: "db ?c1 = db c0" using *(6) by (simp_all add: logTo_def)
  have "db c' = db c0"
    if "\<forall>sqlBytes. ReadFile fsys (Path t) = Inr sqlBytes \<longrightarrow> confined eng sqlBytes (db c0)"
    using applyMigration_failed(3) [OF t1 *(4)] that d1 by simp
  with * show "\<exists>pre t post c0 e.
               scripts = pre @ t # post \<and> \<not> appliedPaths (Path t)
               \<and> applyPending eng fsys now appliedPaths pre c = (None, c0)
               \<and> applyMigration eng fsys t now
                     (logTo Debug ''applying migration'' [(''path'', Path t)] c0) = (Some e, c')
               \<and> err = ''apply '' @ Path t @ '': '' @ e
               \<and> tx c' = None
               \<and> logged c' = logged c0 @ [(Debug, ''applying migration'', [(''path'', Path t)])]
               \<and> ((\<forall>sqlBytes. ReadFile fsys (Path t) = Inr sqlBytes \<longrightarrow>
                       confined eng sqlBytes (db c0)) \<longrightarrow> db c' = db c0)"
    by blast
qed

lemma eval_loop0:
  "fst (applyPending eng_ex fs0 7 (\<lambda>p. False) scripts_ex sess_init)
     = Some ''apply 20260101000002_create_posts.sql: exec: near line 1: syntax error''"
  by (simp add: scripts_ex_def sess_init_def db_init_def eng_ex_def on_transaction_def
      applyMigration_def applyMigration_tx_def read0 BeginTx_def ExecScript_def ExecContext_def
      Commit_def Rollback_def logTo_def insert_migration_def update_config_def seed_config_def)

lemma confined_eng_ex: "confined eng_ex sqlBytes d"
  by (simp add: confined_def eng_ex_def on_transaction_def)

theorem migration_failure_rolls_back_witness:
  "tx sess_init = None
   \<and> fst (applyPending eng_ex fs0 7 (\<lambda>p. False) scripts_ex sess_init)
       = Some ''apply 20260101000002_create_posts.sql: exec: near line 1: syntax error''
   \<and> (\<exists>pre t post c1 e.
         scripts_ex = pre @ t # post
         \<and> applyPending eng_ex fs0 7 (\<lambda>p. False) pre sess_init = (None, c1)
         \<and> ''apply 20260101000002_create_posts.sql: exec: near line 1: syntax error''
             = ''apply '' @ Path t @ '': '' @ e
         \<and> db (snd (applyPending eng_ex fs0 7 (\<lambda>p. False) scripts_ex sess_init)) = db c1
         \<and> logged (snd (applyPending eng_ex fs0 7 (\<lambda>p. False) scripts_ex sess_init))
             = logged c1 @ [(Debug, ''applying migration'', [(''path'', Path t)])])"
proof -
  let ?err = "''apply 20260101000002_create_posts.sql: exec: near line 1: syntax error''"
  let ?c' = "snd (applyPending eng_ex fs0 7 (\<lambda>p. False) scripts_ex sess_init)"
  have t: "tx sess_init = None" by (simp add: sess_init_def)
  have f: "fst (applyPending eng_ex fs0 7 (\<lambda>p. False) scripts_ex sess_init) = Some ?err"
    by (rule eval_loop0)
  then have run: "applyPending eng_ex fs0 7 (\<lambda>p. False) scripts_ex sess_init = (Some ?err, ?c')"
    by (metis prod.collapse)
  from migration_failure_rolls_back [OF t, of fs0 "hd scripts_ex" eng_ex 7 "\<lambda>p. False" scripts_ex] run
  have "\<exists>pre t post c1 e.
               scripts_ex = pre @ t # post \<and> \<not> False
               \<and> applyPending eng_ex fs0 7 (\<lambda>p. False) pre sess_init = (None, c1)
               \<and> applyMigration eng_ex fs0 t 7
                     (logTo Debug ''applying migration'' [(''path'', Path t)] c1) = (Some e, ?c')
               \<and> ?err = ''apply '' @ Path t @ '': '' @ e
               \<and> tx ?c' = None
               \<and> logged ?c' = logged c1 @ [(Debug, ''applying migration'', [(''path'', Path t)])]
               \<and> ((\<forall>sqlBytes. ReadFile fs0 (Path t) = Inr sqlBytes \<longrightarrow>
                       confined eng_ex sqlBytes (db c1)) \<longrightarrow> db ?c' = db c1)"
    by blast
  then have "\<exists>pre t post c1 e.
               scripts_ex = pre @ t # post
               \<and> applyPending eng_ex fs0 7 (\<lambda>p. False) pre sess_init = (None, c1)
               \<and> ?err = ''apply '' @ Path t @ '': '' @ e
               \<and> db ?c' = db c1
               \<and> logged ?c' = logged c1 @ [(Debug, ''applying migration'', [(''path'', Path t)])]"
    using confined_eng_ex by blast
  with t f show ?thesis by blast
qed

subsection \<open>A run with nothing pending changes nothing\<close>

text \<open>
  Claim C2. A collection is configured and the path of every discovered script is the
  path of an applied record. On an initialized database (the schema version is
  readable), \<open>migrate\<close> returns no error and the session it was given with a longer
  log: no transaction is begun, nothing depends on the engine, the log has no entry for
  an applied migration, and the schema version read afterwards is the same. More
  generally, on every database that has at least one of the two bookkeeping tables (every
  database but a new, empty one, which the run initializes), the run leaves
  the committed database as it was, with the same applied records, and logs no
  applied migration.
\<close>

theorem migrate_idempotent:
  assumes "Migrations cfg = Some fsys"
    and "fst (listMigrationFiles fsys []) = Inr scripts"
    and "fetchAppliedMigrations (db c) = Inr applied"
    and "Path ` set scripts \<subseteq> Path ` set applied"
  shows "(\<forall>v. fetchSchemaVersion (db c) = Inr (Some v) \<longrightarrow>
            (\<exists>lg. migrate eng cfg now c = (None, c\<lparr>logged := logged c @ lg\<rparr>)
                \<and> (\<forall>e \<in> set lg. fst (snd e) \<noteq> ''applying migration''))
            \<and> fetchSchemaVersion (db (snd (migrate eng cfg now c))) = Inr (Some v))
       \<and> (config_table (db c) \<noteq> None \<or> schema_migrations_table (db c) \<noteq> None \<longrightarrow>
            db (snd (migrate eng cfg now c)) = db c
            \<and> fetchAppliedMigrations (db (snd (migrate eng cfg now c))) = Inr applied
            \<and> (\<exists>lg. logged (snd (migrate eng cfg now c)) = logged c @ lg
                   \<and> (\<forall>e \<in> set lg. fst (snd e) \<noteq> ''applying migration'')))"
proof (intro conjI allI impI)
  fix v
  assume v: "fetchSchemaVersion (db c) = Inr (Some v)"
  from migrate_all_applied [OF v assms, of eng now]
  show "\<exists>lg. migrate eng cfg now c = (None, c\<lparr>logged := logged c @ lg\<rparr>)
                \<and> (\<forall>e \<in> set lg. fst (snd e) \<noteq> ''applying migration'')"
    and "fetchSchemaVersion (db (snd (migrate eng cfg now c))) = Inr (Some v)"
    by blast+
next
  assume nf: "config_table (db c) \<noteq> None \<or> schema_migrations_table (db c) \<noteq> None"
  from migrate_not_fresh [OF nf assms, of eng now]
  show "db (snd (migrate eng cfg now c)) = db c"
    and "\<exists>lg. logged (snd (migrate eng cfg now c)) = logged c @ lg
                   \<and> (\<forall>e \<in> set lg. fst (snd e) \<noteq> ''applying migration'')"
    by blast+
  then show "fetchAppliedMigrations (db (snd (migrate eng cfg now c))) = Inr applied"
    using assms(3) by simp
qed

theorem migrate_idempotent_witness:
  "Migrations cfg_ex = Some fs0
   \<and> fst (listMigrationFiles fs0 []) = Inr scripts_ex
   \<and> fetchAppliedMigrations (db sess_done) = Inr applied_done
   \<and> Path ` set scripts_ex \<subseteq> Path ` set applied_done
   \<and> fetchSchemaVersion (db sess_done) = Inr (Some 20260101000002)
   \<and> (\<exists>lg. migrate eng_ex cfg_ex 9 sess_done = (None, sess_done\<lparr>logged := logged sess_done @ lg\<rparr>))
   \<and> fetchSchemaVersion (db (snd (migrate eng_ex cfg_ex 9 sess_done)))
       = Inr (Some 20260101000002)
   \<and> db (snd (migrate eng_ex cfg_ex 9 sess_done)) = db sess_done
   \<and> fetchAppliedMigrations (db (snd (migrate eng_ex cfg_ex 9 sess_done))) = Inr applied_done"
proof -
  have h1: "fetchSchemaVersion (db sess_done) = Inr (Some 20260101000002)"
    by (simp add: sess_done_def version_done)
  have h2: "Migrations cfg_ex = Some fs0" by (simp add: cfg_ex_def)
  have h4: "fetchAppliedMigrations (db sess_done) = Inr applied_done"
    by (simp add: sess_done_def db_done_def applied_done_def fetchAppliedMigrations_def
          select_applied_def less_eq_char_def less_char_def)
  have h5: "Path ` set scripts_ex \<subseteq> Path ` set applied_done"
    by (simp add: scripts_ex_def applied_done_def)
  have h6: "config_table (db sess_done) \<noteq> None \<or> schema_migrations_table (db sess_done) \<noteq> None"
    by (simp add: sess_done_def db_done_def)
  from migrate_idempotent [OF h2 list0 h4 h5, of eng_ex 9] h1 h6
  have "(\<exists>lg. migrate eng_ex cfg_ex 9 sess_done = (None, sess_done\<lparr>logged := logged sess_done @ lg\<rparr>))
        \<and> fetchSchemaVersion (db (snd (migrate eng_ex cfg_ex 9 sess_done)))
            = Inr (Some 20260101000002)
        \<and> db (snd (migrate eng_ex cfg_ex 9 sess_done)) = db sess_done
        \<and> fetchAppliedMigrations (db (snd (migrate eng_ex cfg_ex 9 sess_done))) = Inr applied_done"
    by blast
  with h1 h2 list0 h4 h5 show ?thesis by blast
qed

subsection \<open>Discovery returns the scripts in order\<close>

text \<open>
  Claim C3. When the matching file names of the directory have pairwise distinct
  14-digit prefixes, discovery succeeds; directories and non-matching names are left
  out; each script carries the prefix as its integer id and the middle part of the name
  as its comment; the scripts are returned in strictly ascending byte-wise order of
  their file names, which is also strictly ascending order of their ids.
\<close>

theorem listMigrationFiles_sorted:
  assumes "ReadDir fsys = Inr entries"
    and "distinct (map (take 14) (migrationNames entries))"
  shows "\<exists>scripts. fst (listMigrationFiles fsys lg) = Inr scripts
           \<and> map Path scripts = sort (migrationNames entries)
           \<and> (\<forall>s \<in> set scripts.
                 FindStringSubmatch (Path s) = Some (take 14 (Path s), Comment s)
                 \<and> ID s = int (decimal (take 14 (Path s))))
           \<and> sorted_wrt (<) (map Path scripts)
           \<and> sorted_wrt (<) (map ID scripts)"
proof -
  let ?names = "migrationNames entries"
  let ?scripts = "sort_key Path (map scriptOf ?names)"
  have dn: "distinct ?names" using assms(2) by (simp add: distinct_map)
  have "fst (scanEntries entries [] Map.empty lg) = Inr ([] @ map scriptOf ?names)"
    using distinct_idOf [OF assms(2)] by (intro scanEntries_ok [of _ "[]"]) (simp_all add: seen_inv_empty)
  then have res: "fst (listMigrationFiles fsys lg) = Inr ?scripts"
    by (cases "scanEntries entries [] Map.empty lg") (simp add: listMigrationFiles_def assms(1))
  have path_scriptOf: "map Path (map scriptOf ?names) = ?names"
    by (simp add: scriptOf_def comp_def)
  have paths: "map Path ?scripts = sort ?names"
    using path_scriptOf by (simp add: map_sort_key)
  have each: "\<forall>s \<in> set ?scripts.
                 FindStringSubmatch (Path s) = Some (take 14 (Path s), Comment s)
                 \<and> ID s = int (decimal (take 14 (Path s)))"
  proof
    fix s assume "s \<in> set ?scripts"
    then obtain n where n: "n \<in> set ?names" and s: "s = scriptOf n" by auto
    from migrationNames_match [OF n] obtain m2 where "FindStringSubmatch n = Some (take 14 n, m2)" ..
    then show "FindStringSubmatch (Path s) = Some (take 14 (Path s), Comment s)
                 \<and> ID s = int (decimal (take 14 (Path s)))"
      by (simp add: s scriptOf_def commentOf_def idOf_def)
  qed
  have sp: "sorted_wrt (<) (map Path ?scripts)"
    unfolding paths using dn by (simp add: strict_sorted_iff)
  have "sorted_wrt (\<lambda>a b. ID a < ID b) ?scripts"
  proof (rule sorted_wrt_mono_rel [where P = "\<lambda>a b. Path a < Path b"])
    show "sorted_wrt (\<lambda>a b. Path a < Path b) ?scripts"
      using sp by (simp only: sorted_wrt_map)
  next
    fix a b assume a: "a \<in> set ?scripts" and b: "b \<in> set ?scripts" and lt: "Path a < Path b"
    from a b obtain na nb where na: "na \<in> set ?names" "a = scriptOf na"
      and nb: "nb \<in> set ?names" "b = scriptOf nb" by auto
    from lt have lt': "na < nb" by (simp add: na nb scriptOf_def)
    then have "na \<noteq> nb" by simp
    with assms(2) na(1) nb(1) have ne: "take 14 na \<noteq> take 14 nb"
      by (auto simp: distinct_map inj_on_def)
    from migrationNames_match [OF na(1)] migrationNames_match [OF nb(1)]
    obtain ma mb where "FindStringSubmatch na = Some (take 14 na, ma)"
      "FindStringSubmatch nb = Some (take 14 nb, mb)" by blast
    then have "idOf na < idOf nb" using lt' ne by (rule idOf_less)
    then show "ID a < ID b" by (simp add: na nb scriptOf_def)
  qed
  then have si: "sorted_wrt (<) (map ID ?scripts)" by (simp only: sorted_wrt_map)
  from res paths each sp si show ?thesis by blast
qed

theorem listMigrationFiles_sorted_witness:
  "ReadDir fs0 = Inr entries0
     \<and> distinct (map (take 14) (migrationNames entries0))
     \<and> (\<exists>scripts. fst (listMigrationFiles fs0 []) = Inr scripts
           \<and> map Path scripts = sort (migrationNames entries0)
           \<and> (\<forall>s \<in> set scripts.
                 FindStringSubmatch (Path s) = Some (take 14 (Path s), Comment s)
                 \<and> ID s = int (decimal (take 14 (Path s))))
           \<and> sorted_wrt (<) (map Path scripts)
           \<and> sorted_wrt (<) (map ID scripts))"
proof -
  have rd: "ReadDir fs0 = Inr entries0" by (simp add: fs0_def)
  have names: "migrationNames entries0
                 = [''20260101000002_create_posts.sql'', ''20260101000001_create_users.sql'']"
    by (simp add: migrationNames_def entries0_def isMigrationFile_def FindStringSubmatch_def
          is_digit_def less_eq_char_def)
  have d: "distinct (map (take 14) (migrationNames entries0))"
    unfolding names by simp
  from rd d listMigrationFiles_sorted [OF rd d, of "[]"] show ?thesis by blast
qed

subsection \<open>Duplicate ids stop discovery\<close>

text \<open>
  Claim C4. When two matching file names of the directory parse to the same integer id,
  discovery returns an error and no list. The error is the duplicate-id error, and it
  names two conflicting file names \<open>a\<close> and \<open>b\<close> (\<open>a\<close> before \<open>b\<close> in the directory,
  with the same id). A \<open>migrate\<close> run with this collection returns an error and does not
  depend on how the engine executes scripts: no script is applied.
\<close>

theorem listMigrationFiles_duplicate:
  assumes "ReadDir fsys = Inr entries"
    and "\<not> distinct (map idOf (migrationNames entries))"
  shows "(\<exists>a b xs ys zs.
            migrationNames entries = xs @ a # ys @ b # zs \<and> idOf a = idOf b
            \<and> fst (listMigrationFiles fsys lg)
                = Inl (''duplicate migration ID '' @ Itoa (idOf a) @ '': '' @ quote a
                         @ '' and '' @ quote b))
       \<and> (Migrations cfg = Some fsys \<longrightarrow>
            fst (migrate eng cfg now c) \<noteq> None
            \<and> (\<forall>f. migrate (eng\<lparr>exec_sql := f\<rparr>) cfg now c = migrate eng cfg now c))"
proof -
  from scanEntries_dup [of Map.empty "[]" entries "[]" lg] assms(2)
  obtain a b xs ys zs where
    sc: "fst (scanEntries entries [] Map.empty lg) = Inl (duplicateError (idOf a) a b)"
    and split: "migrationNames entries = xs @ a # ys @ b # zs" and same: "idOf a = idOf b"
    by (auto simp: seen_inv_empty)
  let ?msg = "duplicateError (idOf a) a b"
  have res: "fst (listMigrationFiles fsys lg') = Inl ?msg" for lg'
  proof -
    have "fst (listMigrationFiles fsys lg) = Inl ?msg"
      using sc by (cases "scanEntries entries [] Map.empty lg")
                  (simp add: listMigrationFiles_def assms(1))
    then show ?thesis using listMigrationFiles_fst_log [of fsys lg' lg] by simp
  qed
  have part1: "\<exists>a b xs ys zs.
            migrationNames entries = xs @ a # ys @ b # zs \<and> idOf a = idOf b
            \<and> fst (listMigrationFiles fsys lg)
                = Inl (''duplicate migration ID '' @ Itoa (idOf a) @ '': '' @ quote a
                         @ '' and '' @ quote b)"
    using split same res [of lg] unfolding duplicateError_def by blast
  have part2: "fst (migrate eng cfg now c) \<noteq> None" if "Migrations cfg = Some fsys"
    unfolding migrate_list_error [OF that res]
    by (simp add: Let_def split: sum.splits option.splits prod.splits)
  have part3: "migrate (eng\<lparr>exec_sql := f\<rparr>) cfg now c = migrate eng cfg now c"
    if "Migrations cfg = Some fsys" for f
    unfolding migrate_list_error [OF that res] applySchemaInit_exec_sql ..
  from part1 part2 part3 show ?thesis by blast
qed

theorem listMigrationFiles_duplicate_witness:
  "ReadDir fs_dup = Inr entries_dup
   \<and> \<not> distinct (map idOf (migrationNames entries_dup))
   \<and> (\<exists>a b xs ys zs.
            migrationNames entries_dup = xs @ a # ys @ b # zs \<and> idOf a = idOf b
            \<and> fst (listMigrationFiles fs_dup [])
                = Inl (''duplicate migration ID '' @ Itoa (idOf a) @ '': '' @ quote a
                         @ '' and '' @ quote b))
   \<and> fst (migrate eng_ex (cfg_ex\<lparr>Migrations := Some fs_dup\<rparr>) 9 sess_init) \<noteq> None"
proof -
  have rd: "ReadDir fs_dup = Inr entries_dup" by (simp add: fs_dup_def)
  have names: "migrationNames entries_dup
                 = [''20260101000001_create_users.sql'', ''20260101000001_create_posts.sql'']"
    by (simp add: migrationNames_def entries_dup_def isMigrationFile_def FindStringSubmatch_def
          is_digit_def less_eq_char_def)
  have nd: "\<not> distinct (map idOf (migrationNames entries_dup))"
    unfolding names by (simp add: idOf_def)
  have m: "Migrations (cfg_ex\<lparr>Migrations := Some fs_dup\<rparr>) = Some fs_dup" by simp
  from listMigrationFiles_duplicate [OF rd nd, of "[]" "cfg_ex\<lparr>Migrations := Some fs_dup\<rparr>" eng_ex 9 sess_init] rd nd m
  show ?thesis by blast
qed

subsection \<open>A missing table is not a missing row\<close>

text \<open>
  Claim C5. When the \<^verbatim>\<open>config\<close> table does not exist, \<open>fetchSchemaVersion\<close> returns
  no version and no error, and \<open>migrate\<close> goes on to the initialization of the schema (it
  logs the step; on a database with neither table and an engine whose transactions
  succeed, the run without user migrations ends with schema version 0 and the
  \<^verbatim>\<open>init\<close> record). When the table exists and has no \<^verbatim>\<open>schema.version\<close> row,
  \<open>fetchSchemaVersion\<close> returns an error, and \<open>migrate\<close> returns that error having done
  nothing but log its start.
\<close>

theorem fetchSchemaVersion_absence:
  "(config_table (db c) = None \<longrightarrow>
      fetchSchemaVersion (db c) = Inr None
      \<and> (\<exists>rest. logged (snd (migrate eng cfg now c))
             = logged c @ [(Debug, ''starting migration'', []), (Debug, ''initializing schema'', [])]
                 @ rest)
      \<and> (schema_migrations_table (db c) = None \<and> begin_error eng (db c) = None
           \<and> (\<forall>d. commit_error eng d = None) \<and> Migrations cfg = None \<longrightarrow>
           (\<exists>c'. migrate eng cfg now c = (None, c')
              \<and> fetchSchemaVersion (db c') = Inr (Some 0)
              \<and> schema_migrations_table (db c')
                  = Some [\<lparr>sm_id = 0, sm_comment = ''init'', sm_path = ''schema.sql'',
                           sm_applied_at = now, sm_created_at = now, sm_updated_at = now\<rparr>])))
   \<and> (\<forall>rows. config_table (db c) = Some rows
           \<and> (\<forall>r \<in> set rows. cfg_key r \<noteq> ''schema.version'') \<longrightarrow>
         fetchSchemaVersion (db c) = Inl ''fetch schema.version: sql: no rows in result set''
         \<and> migrate eng cfg now c
             = (Some ''fetch schema.version: sql: no rows in result set'',
                logTo Debug ''starting migration'' [] c))"
proof (intro conjI impI allI)
  assume "config_table (db c) = None"
  then show "fetchSchemaVersion (db c) = Inr None" by (rule fetchSchemaVersion_no_table)
next
  assume "config_table (db c) = None"
  then show "\<exists>rest. logged (snd (migrate eng cfg now c))
             = logged c @ [(Debug, ''starting migration'', []), (Debug, ''initializing schema'', [])]
                 @ rest" by (rule migrate_log_init)
next
  assume "config_table (db c) = None"
    and "schema_migrations_table (db c) = None \<and> begin_error eng (db c) = None
           \<and> (\<forall>d. commit_error eng d = None) \<and> Migrations cfg = None"
  then show "\<exists>c'. migrate eng cfg now c = (None, c')
              \<and> fetchSchemaVersion (db c') = Inr (Some 0)
              \<and> schema_migrations_table (db c')
                  = Some [\<lparr>sm_id = 0, sm_comment = ''init'', sm_path = ''schema.sql'',
                           sm_applied_at = now, sm_created_at = now, sm_updated_at = now\<rparr>]"
    using migrate_fresh [of c eng cfg now] by blast
next
  fix rows
  assume a: "config_table (db c) = Some rows \<and> (\<forall>r \<in> set rows. cfg_key r \<noteq> ''schema.version'')"
  then show "fetchSchemaVersion (db c) = Inl ''fetch schema.version: sql: no rows in result set''"
    using fetchSchemaVersion_no_row by blast
  then show "migrate eng cfg now c
             = (Some ''fetch schema.version: sql: no rows in result set'',
                logTo Debug ''starting migration'' [] c)"
    by (simp add: migrate_def Let_def logTo_def)
qed

theorem fetchSchemaVersion_absence_witness:
  "config_table db_empty = None
   \<and> fetchSchemaVersion db_empty = Inr None
   \<and> (\<exists>c'. migrate eng_ex (cfg_ex\<lparr>Migrations := None\<rparr>) 5 \<lparr>db = db_empty, tx = None, logged = []\<rparr>
               = (None, c')
          \<and> fetchSchemaVersion (db c') = Inr (Some 0))
   \<and> map cfg_key (the (config_table db_norow)) = [''app.version'']
   \<and> migrate eng_ex cfg_ex 5 \<lparr>db = db_norow, tx = None, logged = []\<rparr>
       = (Some ''fetch schema.version: sql: no rows in result set'',
          \<lparr>db = db_norow, tx = None, logged = [(Debug, ''starting migration'', [])]\<rparr>)"
proof -
  let ?ce = "\<lparr>db = db_empty, tx = None, logged = []\<rparr>"
  let ?cn = "\<lparr>db = db_norow, tx = None, logged = []\<rparr>"
  have e1: "config_table (db ?ce) = None" by (simp add: db_empty_def)
  have e2: "schema_migrations_table (db ?ce) = None \<and> begin_error eng_ex (db ?ce) = None
           \<and> (\<forall>d. commit_error eng_ex d = None) \<and> Migrations (cfg_ex\<lparr>Migrations := None\<rparr>) = None"
    by (simp add: db_empty_def eng_ex_def)
  have n1: "config_table (db ?cn)
              = Some [\<lparr>cfg_key = ''app.version'', cfg_value = ''1.2.3'', cfg_created_at = 0,
                         cfg_updated_at = 0\<rparr>]
            \<and> (\<forall>r \<in> set [\<lparr>cfg_key = ''app.version'', cfg_value = ''1.2.3'', cfg_created_at = 0,
                         cfg_updated_at = 0\<rparr>]. cfg_key r \<noteq> ''schema.version'')"
    by (simp add: db_norow_def)
  from fetchSchemaVersion_absence [of ?ce eng_ex "cfg_ex\<lparr>Migrations := None\<rparr>" 5] e1 e2
  have p1: "fetchSchemaVersion db_empty = Inr None
     \<and> (\<exists>c'. migrate eng_ex (cfg_ex\<lparr>Migrations := None\<rparr>) 5 ?ce = (None, c')
          \<and> fetchSchemaVersion (db c') = Inr (Some 0))"
    by auto
  from fetchSchemaVersion_absence [of ?cn eng_ex cfg_ex 5] n1
  have p2: "migrate eng_ex cfg_ex 5 ?cn
       = (Some ''fetch schema.version: sql: no rows in result set'',
          \<lparr>db = db_norow, tx = None, logged = [(Debug, ''starting migration'', [])]\<rparr>)"
    by (simp add: logTo_def)
  from e1 n1 p1 p2 show ?thesis by (simp add: db_norow_def)
qed

subsection \<open>In-memory databases in production\<close>

text \<open>
  Claim C6. An in-memory open while the configured environment variable (by default
  \<^verbatim>\<open>ENV\<close>) holds \<^verbatim>\<open>production\<close> in any letter case: without the override
  \<^verbatim>\<open>AllowMemoryInProduction\<close>, \<open>Open\<close> returns the production-rejection error and the
  world untouched (no connection is made, nothing is logged); with the override, the
  open goes on to \<open>openAndMigrate\<close> exactly as it does outside production.
\<close>

theorem Open_memory_production:
  assumes "isMemory cfg"
    and "map toLower (Getenv w (ProductionEnvVar (defaults cfg))) = ''production''"
  shows "(\<not> AllowMemoryInProduction cfg \<longrightarrow>
            Open plat cfg now w
              = (Inl (''in-memory database not allowed in production (''
                        @ ProductionEnvVar (defaults cfg) @ ''=production)''), w))
       \<and> (AllowMemoryInProduction cfg \<longrightarrow>
            Open plat cfg now w
              = openAndMigrate plat (defaults cfg) memoryPragmas now
                  (logW Info ''DB mode: in-memory'' [] w))"
proof -
  have "map toLower ''production'' = ''production''" by (simp add: toLower_def)
  then have "isProduction w (defaults cfg)"
    using assms(2) by (simp add: isProduction_def EqualFold_def)
  then show ?thesis
    using assms(1) by (simp add: Open_def Let_def isMemory_defaults openMemory_def defaults_fields)
qed

lemma eval_open_memory:
  "fst (openAndMigrate plat_ex (cfg_mem\<lparr>AllowMemoryInProduction := True, ProductionEnvVar := ''ENV''\<rparr>)
          memoryPragmas 5 (logW Info ''DB mode: in-memory'' [] world_prod))
     = Inr (buildDSN '':memory:'' memoryPragmas)"
  by (simp add: openAndMigrate_def Let_def cfg_mem_def cfg_ex_def connect_def logW_def world_prod_def
        uriTarget_memory store_def
        runMigrations_def migrate_def logTo_def db_empty_def fetchSchemaVersion_def
        select_schema_version_def no_such_table_config applySchemaInit_def applySchemaInit_tx_def
        BeginTx_def ExecContext_def Commit_def Rollback_def plat_ex_def eng_ex_def schema_sql_def
        insert_migration_def)

theorem Open_memory_production_witness:
  "isMemory cfg_mem
   \<and> map toLower (Getenv world_prod (ProductionEnvVar (defaults cfg_mem))) = ''production''
   \<and> Open plat_ex cfg_mem 5 world_prod
       = (Inl ''in-memory database not allowed in production (ENV=production)'', world_prod)
   \<and> fst (Open plat_ex (cfg_mem\<lparr>AllowMemoryInProduction := True\<rparr>) 5 world_prod)
       = Inr (buildDSN '':memory:'' memoryPragmas)"
proof -
  let ?cfg' = "cfg_mem\<lparr>AllowMemoryInProduction := True\<rparr>"
  have m: "isMemory cfg_mem" "isMemory ?cfg'"
    by (simp_all add: isMemory_def cfg_mem_def cfg_ex_def)
  have d: "ProductionEnvVar (defaults cfg_mem) = ''ENV''"
    "defaults ?cfg' = cfg_mem\<lparr>AllowMemoryInProduction := True, ProductionEnvVar := ''ENV''\<rparr>"
    by (simp_all add: defaults_def cfg_mem_def cfg_ex_def)
  have p: "map toLower (Getenv world_prod (ProductionEnvVar (defaults cfg_mem))) = ''production''"
    "map toLower (Getenv world_prod (ProductionEnvVar (defaults ?cfg'))) = ''production''"
    by (simp_all add: d Getenv_def world_prod_def toLower_def)
  have na: "\<not> AllowMemoryInProduction cfg_mem" by (simp add: cfg_mem_def cfg_ex_def)
  have r1: "Open plat_ex cfg_mem 5 world_prod
       = (Inl ''in-memory database not allowed in production (ENV=production)'', world_prod)"
    using Open_memory_production [OF m(1) p(1), of plat_ex 5] na d(1) by simp
  have "Open plat_ex ?cfg' 5 world_prod
          = openAndMigrate plat_ex (defaults ?cfg') memoryPragmas 5
                  (logW Info ''DB mode: in-memory'' [] world_prod)"
    using Open_memory_production [OF m(2) p(2), of plat_ex 5] by simp
  then have r2: "fst (Open plat_ex ?cfg' 5 world_prod) = Inr (buildDSN '':memory:'' memoryPragmas)"
    by (simp add: d(2) eval_open_memory)
  from m(1) p(1) r1 r2 show ?thesis by simp
qed

subsection \<open>Create\<close>





subsection \<open>Delete\<close>




subsection \<open>Status\<close>

text \<open>
  Claim C9, as stated, fails on a database file that exists and is not initialized (no
  \<^verbatim>\<open>config\<close> table): two scripts are discovered and none has an applied record, yet the
  snapshot has no pending path. \<open>getStatus\<close> returns before it looks at the scripts.
\<close>

theorem Status_pending_counterexample:
  "fileExists world_uninit ''/data/app.db''
   \<and> fst (Status plat_ex cfg_status 9 world_uninit)
       = Inr \<lparr>SchemaVersion = 0, Applied = [], Pending = [], IsInitialized = False\<rparr>
   \<and> fst (listMigrationFiles fs0 []) = Inr scripts_ex
   \<and> map Path scripts_ex = [''20260101000001_create_users.sql'', ''20260101000002_create_posts.sql'']
   \<and> fetchAppliedMigrations db_empty = Inr []"
proof -
  have "fst (Status plat_ex cfg_status 9 world_uninit)
       = Inr \<lparr>SchemaVersion = 0, Applied = [], Pending = [], IsInitialized = False\<rparr>"
    by (simp add: Status_def Let_def defaults_def cfg_status_def isMemory_def HasPrefix_def
          fileExists_def openPersistent_def validatePersistentPath_def IsAbs_def Ext_def
          isDirectory_def plat_ex_def dirname_def openAndMigrate_def logW_def connect_def
          runMigrations_def database_at_def getStatus_def fetchSchemaVersion_def
          select_schema_version_def no_such_table_config zeroStatus_def world_uninit_def
          db_empty_def target_app_db)
  moreover have "fetchAppliedMigrations db_empty = Inr []"
    by (simp add: fetchAppliedMigrations_def select_applied_def db_empty_def
          no_such_table_migrations)
  moreover have "fileExists world_uninit ''/data/app.db''"
    by (simp add: fileExists_def world_uninit_def)
  ultimately show ?thesis using list0 by (simp add: scripts_ex_def)
qed

text \<open>
  Claim C9, amended. \<open>Status\<close> rejects in-memory locations; for a persistent path at
  which no file exists it returns the zero snapshot (\<^verbatim>\<open>IsInitialized = false\<close>) and no
  error. Otherwise, when it returns a snapshot, no migration ran: the world is the one
  the connection left, and with \<open>d\<close> the database the connection opened: if \<open>d\<close> is not
  initialized the snapshot is the zero snapshot, with no applied and no pending entry; if
  \<open>d\<close> has schema version \<open>v\<close> then \<^verbatim>\<open>IsInitialized\<close> holds, \<^verbatim>\<open>SchemaVersion\<close> is
  \<open>v\<close>, \<^verbatim>\<open>Applied\<close> is the list of applied records, and \<^verbatim>\<open>Pending\<close> is the
  discovered script paths, in discovery order, that are not the path of an applied record
  (empty when no collection is configured). When the connection string names the file at
  the path, as it does for every plain path, \<open>d\<close> is the database in that file and no
  file has changed.
\<close>

theorem Status_behaviour:
  "(isMemory cfg \<longrightarrow>
      Status plat cfg now w = (Inl ''cannot check status of in-memory database'', w))
   \<and> (\<not> isMemory cfg \<and> \<not> fileExists w (Path_cfg cfg) \<longrightarrow>
        Status plat cfg now w = (Inr zeroStatus, w))
   \<and> (\<forall>st w'. Status plat cfg now w = (Inr st, w') \<and> \<not> isMemory cfg
          \<and> fileExists w (Path_cfg cfg) \<longrightarrow>
        memory w' = memory w
        \<and> (\<exists>d w1. connect (sql plat) (buildDSN (Path_cfg cfg) persistentPragmas) w = Inr (d, w1)
              \<and> files w' = files w1
              \<and> (uriTarget (buildDSN (Path_cfg cfg) persistentPragmas)
                     = Inr (FileAt (Path_cfg cfg)) \<longrightarrow>
                   files w' = files w
                   \<and> files w (Path_cfg cfg) = Some (RegularFile (Some d)))
              \<and> (fetchSchemaVersion d = Inr None \<longrightarrow> st = zeroStatus)
              \<and> (\<forall>v. fetchSchemaVersion d = Inr (Some v) \<longrightarrow>
                    IsInitialized st \<and> SchemaVersion st = v
                    \<and> fetchAppliedMigrations d = Inr (Applied st)
                    \<and> (Migrations cfg = None \<longrightarrow> Pending st = [])
                    \<and> (\<forall>fsys scripts. Migrations cfg = Some fsys
                          \<and> fst (listMigrationFiles fsys []) = Inr scripts \<longrightarrow>
                          Pending st
                            = filter (\<lambda>p. p \<notin> Path ` set (Applied st)) (map Path scripts)))))
   \<and> (plain_path (Path_cfg cfg) \<longrightarrow>
        uriTarget (buildDSN (Path_cfg cfg) persistentPragmas) = Inr (FileAt (Path_cfg cfg)))"
proof (intro conjI impI allI)
  assume "isMemory cfg"
  then show "Status plat cfg now w = (Inl ''cannot check status of in-memory database'', w)"
    by (simp add: Status_def Let_def isMemory_def defaults_fields)
next
  assume "\<not> isMemory cfg \<and> \<not> fileExists w (Path_cfg cfg)"
  then show "Status plat cfg now w = (Inr zeroStatus, w)"
    by (simp add: Status_def Let_def isMemory_def defaults_fields zeroStatus_uninit)
next
  assume "plain_path (Path_cfg cfg)"
  then show "uriTarget (buildDSN (Path_cfg cfg) persistentPragmas) = Inr (FileAt (Path_cfg cfg))"
    by (rule uriTarget_plain)
next
  fix st w'
  assume a: "Status plat cfg now w = (Inr st, w') \<and> \<not> isMemory cfg \<and> fileExists w (Path_cfg cfg)"
  let ?dsn = "buildDSN (Path_cfg cfg) persistentPragmas"
  from a obtain d w1 lg where c: "connect (sql plat) ?dsn w = Inr (d, w1)"
    and f: "files w' = files w1" "memory w' = memory w"
    and g: "fst (getStatus d ((defaults cfg)\<lparr>SkipMigrations := True\<rparr>) lg) = Inr st"
    using Status_success [of plat cfg now w st w'] by blast
  show "memory w' = memory w" by (rule f)
  have mc: "Migrations ((defaults cfg)\<lparr>SkipMigrations := True\<rparr>) = Migrations cfg"
    by (simp add: defaults_fields)
  have ex: "files w (Path_cfg cfg) \<noteq> None"
    using a by (auto simp: fileExists_def split: option.splits)
  have same: "files w' = files w \<and> files w (Path_cfg cfg) = Some (RegularFile (Some d))"
    if "uriTarget ?dsn = Inr (FileAt (Path_cfg cfg))"
    using connect_existing [OF c that ex] f(1) by simp
  from getStatus_result [OF g, unfolded mc] c f(1) same
  show "\<exists>d w1. connect (sql plat) ?dsn w = Inr (d, w1)
              \<and> files w' = files w1
              \<and> (uriTarget ?dsn = Inr (FileAt (Path_cfg cfg)) \<longrightarrow>
                   files w' = files w
                   \<and> files w (Path_cfg cfg) = Some (RegularFile (Some d)))
              \<and> (fetchSchemaVersion d = Inr None \<longrightarrow> st = zeroStatus)
              \<and> (\<forall>v. fetchSchemaVersion d = Inr (Some v) \<longrightarrow>
                    IsInitialized st \<and> SchemaVersion st = v
                    \<and> fetchAppliedMigrations d = Inr (Applied st)
                    \<and> (Migrations cfg = None \<longrightarrow> Pending st = [])
                    \<and> (\<forall>fsys scripts. Migrations cfg = Some fsys
                          \<and> fst (listMigrationFiles fsys []) = Inr scripts \<longrightarrow>
                          Pending st
                            = filter (\<lambda>p. p \<notin> Path ` set (Applied st)) (map Path scripts)))"
    by blast
qed

lemma eval_status_init: "fst (Status plat_ex cfg_status 9 world_init) = Inr status_init"
proof -
  have l: "\<exists>lg'. listMigrationFiles fs0 lg = (Inr scripts_ex, lg')" for lg
    using list0 listMigrationFiles_fst_log [of fs0 lg "[]"] by (metis prod.collapse)
  have v: "fetchSchemaVersion db_init = Inr (Some 0)"
    by (simp add: fetchSchemaVersion_def select_schema_version_def db_init_def seed_config_def
          Atoi_zero)
  have a: "fetchAppliedMigrations db_init
             = Inr [\<lparr>ID = 0, Comment = ''init'', Path = ''schema.sql'', AppliedAt = 5\<rparr>]"
    by (simp add: fetchAppliedMigrations_def select_applied_def db_init_def)
  have g: "fst (getStatus db_init ((defaults cfg_status)\<lparr>SkipMigrations := True\<rparr>) lg)
             = Inr status_init" for lg
  proof -
    from l [of lg] obtain lg' where "listMigrationFiles fs0 lg = (Inr scripts_ex, lg')" ..
    then show ?thesis
      by (simp add: getStatus_def v a Let_def defaults_def cfg_status_def zeroStatus_def
          status_init_def scripts_ex_def mkAppliedPaths_def)
  qed
  obtain res lg' where gs: "getStatus db_init ((defaults cfg_status)\<lparr>SkipMigrations := True\<rparr>)
      [(Info, ''DB mode: persistent'', [(''path'', ''/data/app.db'')]),
       (Debug, ''opening database'', [(''dsn'', buildDSN ''/data/app.db'' persistentPragmas)])]
      = (res, lg')" by force
  with g have "res = Inr status_init" by (metis fst_conv)
  with gs show ?thesis
    by (simp add: Status_def Let_def defaults_fields isMemory_def HasPrefix_def fileExists_def
          openPersistent_def validatePersistentPath_def IsAbs_def Ext_def isDirectory_def
          plat_ex_def dirname_def openAndMigrate_def logW_def connect_def runMigrations_def
          database_at_def world_init_def cfg_status_def target_app_db)
qed

theorem Status_behaviour_witness:
  "\<not> isMemory cfg_status
   \<and> fileExists world_init (Path_cfg cfg_status)
   \<and> plain_path (Path_cfg cfg_status)
   \<and> fst (Status plat_ex cfg_status 9 world_init) = Inr status_init
   \<and> files (snd (Status plat_ex cfg_status 9 world_init)) = files world_init
   \<and> fetchSchemaVersion db_init = Inr (Some 0)
   \<and> Pending status_init
       = [''20260101000001_create_users.sql'', ''20260101000002_create_posts.sql'']"
proof -
  let ?w' = "snd (Status plat_ex cfg_status 9 world_init)"
  have m: "\<not> isMemory cfg_status" by (simp add: isMemory_def cfg_status_def HasPrefix_def)
  have e: "fileExists world_init (Path_cfg cfg_status)"
    by (simp add: fileExists_def world_init_def cfg_status_def)
  have p: "plain_path (Path_cfg cfg_status)" by (simp add: cfg_status_def plain_path_def)
  have s: "Status plat_ex cfg_status 9 world_init = (Inr status_init, ?w')"
    using eval_status_init by (metis prod.collapse)
  from Status_behaviour [of cfg_status plat_ex 9 world_init] p
  have t: "uriTarget (buildDSN (Path_cfg cfg_status) persistentPragmas)
             = Inr (FileAt (Path_cfg cfg_status))" by blast
  from Status_behaviour [of cfg_status plat_ex 9 world_init] s m e t
  have "files ?w' = files world_init" by blast
  moreover have "fetchSchemaVersion db_init = Inr (Some 0)"
    by (simp add: fetchSchemaVersion_def select_schema_version_def db_init_def seed_config_def
          Atoi_zero)
  ultimately show ?thesis using m e p eval_status_init by (simp add: status_init_def)
qed

subsection \<open>The required schema version\<close>

text \<open>
  Claim C10. Every open ends in \<open>openAndMigrate\<close>. Once the connection and the migration
  step have succeeded: with \<^verbatim>\<open>RequiredSchemaVersion = 0\<close> the open succeeds without
  looking at the schema version, whatever it is (so a required version of 0 cannot be
  asked for); with a non-zero value the open fails when the database is uninitialized
  and when its version differs from the required one, and succeeds when they are equal.
\<close>

theorem required_version_check:
  assumes "connect (sql plat) (buildDSN (Path_cfg cfg) pragmas)
             (logW Debug ''opening database'' [(''dsn'', buildDSN (Path_cfg cfg) pragmas)] w)
             = Inr (d, w1)"
    and "runMigrations (sql plat) cfg (buildDSN (Path_cfg cfg) pragmas) now d w1 = (None, d2, w2)"
  shows "(RequiredSchemaVersion cfg = 0 \<longrightarrow>
            openAndMigrate plat cfg pragmas now w = (Inr (buildDSN (Path_cfg cfg) pragmas), w2))
       \<and> (RequiredSchemaVersion cfg \<noteq> 0 \<longrightarrow>
            (fetchSchemaVersion d2 = Inr None \<longrightarrow>
               openAndMigrate plat cfg pragmas now w
                 = (Inl ''schema version check failed: database not initialized'', w2))
          \<and> (\<forall>v. fetchSchemaVersion d2 = Inr (Some v) \<longrightarrow>
                openAndMigrate plat cfg pragmas now w
                  = (if v \<noteq> RequiredSchemaVersion cfg
                     then (Inl (''schema version mismatch: required ''
                                  @ Itoa (RequiredSchemaVersion cfg) @ '', found '' @ Itoa v), w2)
                     else (Inr (buildDSN (Path_cfg cfg) pragmas), w2))))"
  using assms by (simp add: openAndMigrate_def Let_def)

theorem required_version_check_witness:
  "connect (sql plat_ex) (buildDSN (Path_cfg cfg_file) persistentPragmas)
       (logW Debug ''opening database''
          [(''dsn'', buildDSN (Path_cfg cfg_file) persistentPragmas)] world_done)
     = Inr (db_done, logW Debug ''opening database''
          [(''dsn'', buildDSN (Path_cfg cfg_file) persistentPragmas)] world_done)
   \<and> fetchSchemaVersion db_done = Inr (Some 20260101000002)
   \<and> fst (openAndMigrate plat_ex cfg_file persistentPragmas 9 world_done)
       = Inr (buildDSN ''/data/app.db'' persistentPragmas)
   \<and> fst (openAndMigrate plat_ex (cfg_file\<lparr>RequiredSchemaVersion := 7\<rparr>) persistentPragmas 9 world_done)
       = Inl ''schema version mismatch: required 7, found 20260101000002''"
proof -
  let ?dsn = "buildDSN (Path_cfg cfg_file) persistentPragmas"
  let ?w0 = "logW Debug ''opening database'' [(''dsn'', ?dsn)] world_done"
  let ?cfg7 = "cfg_file\<lparr>RequiredSchemaVersion := 7\<rparr>"
  have p: "Path_cfg ?cfg7 = Path_cfg cfg_file" "Path_cfg cfg_file = ''/data/app.db''"
    by (simp_all add: cfg_file_def)
  have t: "uriTarget ?dsn = Inr (FileAt ''/data/app.db'')"
    unfolding p by (rule target_app_db)
  have c: "connect (sql plat_ex) ?dsn ?w0 = Inr (db_done, ?w0)"
    by (simp add: connect_def t logW_def world_done_def)
  have r: "runMigrations (sql plat_ex) cfg_file ?dsn 9 db_done ?w0 = (None, db_done, ?w0)"
    "runMigrations (sql plat_ex) ?cfg7 ?dsn 9 db_done ?w0 = (None, db_done, ?w0)"
    by (simp_all add: runMigrations_def cfg_file_def)
  have z: "RequiredSchemaVersion cfg_file = 0" "RequiredSchemaVersion ?cfg7 = 7"
    by (simp_all add: cfg_file_def)
  have i: "Itoa 7 = ''7''" "Itoa 20260101000002 = ''20260101000002''"
    by (simp_all add: Itoa_def)
  have a: "fst (openAndMigrate plat_ex cfg_file persistentPragmas 9 world_done)
             = Inr (buildDSN ''/data/app.db'' persistentPragmas)"
    using required_version_check [OF c r(1)] z(1) by (simp add: p)
  have b: "fst (openAndMigrate plat_ex ?cfg7 persistentPragmas 9 world_done)
       = Inl ''schema version mismatch: required 7, found 20260101000002''"
    using required_version_check [of plat_ex ?cfg7 persistentPragmas world_done db_done ?w0 9 db_done ?w0]
      c r(2) version_done by (simp add: i z p)
  from c version_done a b show ?thesis by simp
qed

end
